theory Spec2Isabelle
  imports Main
begin

section \<open>The graph store\<close>

text \<open>
  The program keeps its data in a Neo4j property graph and talks to it through Cypher
  queries (\<open>Neo4jInstance.run_query\<close>). The store is modelled as explicit state: the
  \<open>Account\<close> and \<open>NFT\<close> nodes with the properties the queries read and write, the
  \<open>OWNED\<close> and \<open>TRANSACTED\<close> relationships, the \<open>Update_Info\<close> and
  \<open>Community_Info\<close> nodes, and the catalog of named graph projections. A property
  that a node or relationship may lack is an \<open>option\<close>. A Cypher clause becomes the
  list function that computes its rows or its writes.

  A node carries the property \<open>{c}_com_id_list\<close> for several collections \<open>c\<close>; the field
  \<open>com_id_list\<close> maps \<open>c\<close> to that membership array.
\<close>

datatype label = Account | NFT

record node =
  node_id :: nat
  label :: label
  address :: string
  n_identifier :: string
  collection_name :: string
  updated_at :: "int option"
  com_id_list :: "string \<Rightarrow> int list option"

record owned_rel =
  o_src :: nat
  o_dst :: nat
  currently_owned :: "bool option"
  o_from :: "int option"
  until :: "int option"

datatype pval = VInt int | VStr string

record payment_props =
  transaction_value :: pval
  transaction_token_symbol :: pval
  transaction_token_decimals :: pval
  transaction_token :: pval

record transacted_rel =
  t_src :: nat
  t_dst :: nat
  t_event_type :: string
  t_collection_name :: string
  transaction_hash :: string
  transaction_timestamp :: int
  t_identifier :: string
  t_payment :: "payment_props option"

record update_info =
  ui_collection_name :: string
  collection_address :: string
  update_frequency :: "int option"

record store =
  nodes :: "node list"
  owned :: "owned_rel list"
  transacted :: "transacted_rel list"
  update_infos :: "update_info list"
  community_infos :: "(string \<Rightarrow> int list list option) list"
  projections :: "string list"

subsection \<open>Exceptions\<close>

datatype exn =
  NotExistsException | KeyError | IndexError | TypeError | UnboundLocalError | ClientError |
  ConnectionError

datatype 'a outcome = Return 'a | Raise exn

section \<open>The per-event mutation: \<open>UpdateFunctionality.insert_new_trx_data\<close>\<close>

text \<open>An event of the feed, with the keys \<open>insert_new_trx_data\<close> reads.\<close>

record payment =
  quantity :: int
  symbol :: string
  decimals :: int
  token_address :: string

record event =
  event_type :: string
  from_address :: string
  to_address :: string
  nft_identifier :: string
  nft_collection :: string
  ev_transaction :: string
  event_timestamp :: int
  ev_payment :: "payment option"

definition mock_data :: "int list" where
  "mock_data = [1, 2, 3]"

text \<open>\<open>MATCH (a:Account {address: $a})\<close> and
  \<open>MATCH (nft:NFT {identifier: $identifier, collection_name: $collection_name})\<close>.\<close>

definition is_account :: "string \<Rightarrow> node \<Rightarrow> bool" where
  "is_account a n \<longleftrightarrow> label n = Account \<and> address n = a"

definition is_nft :: "string \<Rightarrow> string \<Rightarrow> node \<Rightarrow> bool" where
  "is_nft i c n \<longleftrightarrow> label n = NFT \<and> n_identifier n = i \<and> collection_name n = c"

definition match_account :: "store \<Rightarrow> string \<Rightarrow> node list" where
  "match_account g a = filter (is_account a) (nodes g)"

definition match_nft :: "store \<Rightarrow> string \<Rightarrow> string \<Rightarrow> node list" where
  "match_nft g i c = filter (is_nft i c) (nodes g)"

text \<open>
  \<open>query0\<close>: \<open>MERGE (x:Account {address: $x, boredapeyachtclub_com_id_list: $mock_data,
  complete_com_id_list: $mock_data, degods_com_id_list: $mock_data})\<close>, first for the to
  address, then for the from address. \<open>MERGE\<close> matches a node that has the label and
  every property of the pattern with the pattern's value; when none matches it creates
  a node with exactly those properties.
\<close>

definition merge_pattern :: "string \<Rightarrow> node \<Rightarrow> bool" where
  "merge_pattern a n \<longleftrightarrow>
     label n = Account \<and> address n = a \<and>
     com_id_list n ''boredapeyachtclub'' = Some mock_data \<and>
     com_id_list n ''complete'' = Some mock_data \<and>
     com_id_list n ''degods'' = Some mock_data"

definition fresh_id :: "store \<Rightarrow> nat" where
  "fresh_id g = Suc (fold max (map node_id (nodes g)) 0)"

definition new_account :: "nat \<Rightarrow> string \<Rightarrow> node" where
  "new_account i a =
     \<lparr>node_id = i, label = Account, address = a, n_identifier = [], collection_name = [],
      updated_at = None,
      com_id_list = (\<lambda>c. if c = ''boredapeyachtclub'' \<or> c = ''complete'' \<or> c = ''degods''
                          then Some mock_data else None)\<rparr>"

definition merge_account :: "string \<Rightarrow> store \<Rightarrow> store" where
  "merge_account a g =
     (if list_ex (merge_pattern a) (nodes g) then g
      else g\<lparr>nodes := nodes g @ [new_account (fresh_id g) a]\<rparr>)"

definition query0 :: "string \<Rightarrow> string \<Rightarrow> store \<Rightarrow> store" where
  "query0 to_a from_a g = merge_account from_a (merge_account to_a g)"

text \<open>
  \<open>query1\<close>. \<open>MERGE (a)-[r:OWNED]->(n) ON CREATE SET ... ON MATCH SET ...\<close> with the same
  assignments in both branches: every \<open>OWNED\<close> relationship from \<open>a\<close> to \<open>n\<close> gets the
  assignments, and when there is none, one is created and gets them. The clause yields
  one row for each relationship it matched or created.
\<close>

definition okey :: "owned_rel \<Rightarrow> nat \<times> nat" where
  "okey e = (o_src e, o_dst e)"

definition merge_owned ::
  "(owned_rel \<Rightarrow> owned_rel) \<Rightarrow> nat \<times> nat \<Rightarrow> owned_rel list \<Rightarrow> owned_rel list" where
  "merge_owned upd p es =
     (if list_ex (\<lambda>e. okey e = p) es
      then map (\<lambda>e. if okey e = p then upd e else e) es
      else es @ [upd \<lparr>o_src = fst p, o_dst = snd p, currently_owned = None,
                       o_from = None, until = None\<rparr>])"

definition close_rel :: "int \<Rightarrow> owned_rel \<Rightarrow> owned_rel" where
  "close_rel ts e = e\<lparr>currently_owned := Some False, until := Some ts\<rparr>"

definition open_rel :: "int \<Rightarrow> owned_rel \<Rightarrow> owned_rel" where
  "open_rel ts e = e\<lparr>currently_owned := Some True, o_from := Some ts, until := Some 0\<rparr>"

definition pairs :: "node list \<Rightarrow> node list \<Rightarrow> (nat \<times> nat) list" where
  "pairs xs ys = concat (map (\<lambda>x. map (\<lambda>y. (node_id x, node_id y)) ys) xs)"

definition query1 :: "event \<Rightarrow> store \<Rightarrow> store" where
  "query1 ev g =
     (let nfts = match_nft g (nft_identifier ev) (nft_collection ev);
          rows1 = pairs (match_account g (from_address ev)) nfts;
          es1 = fold (merge_owned (close_rel (event_timestamp ev))) rows1 (owned g);
          ro = concat (map (\<lambda>p. filter (\<lambda>e. okey e = p) es1) rows1);
          rows2 = concat (map (\<lambda>r. pairs (match_account g (to_address ev)) nfts) ro);
          es2 = fold (merge_owned (open_rel (event_timestamp ev))) rows2 es1
      in g\<lparr>owned := es2\<rparr>)"

text \<open>
  \<open>query2_transfer\<close> and \<open>query2_sale\<close>: \<open>MATCH (from_address:Account {address:
  $from_address}), (to_address:Account {address: $to_address}) CREATE
  (from_address)-[:TRANSACTED {...}]->(to_address)\<close> creates one relationship for every
  matched pair of nodes.
\<close>

definition create_transacted ::
  "string \<Rightarrow> payment_props option \<Rightarrow> event \<Rightarrow> store \<Rightarrow> store" where
  "create_transacted ety pay ev g =
     g\<lparr>transacted := transacted g @
        map (\<lambda>(f, t). \<lparr>t_src = f, t_dst = t, t_event_type = ety,
                        t_collection_name = nft_collection ev,
                        transaction_hash = ev_transaction ev,
                        transaction_timestamp = event_timestamp ev,
                        t_identifier = nft_identifier ev, t_payment = pay\<rparr>)
            (pairs (match_account g (from_address ev)) (match_account g (to_address ev)))\<rparr>"

definition query2 :: "event \<Rightarrow> store \<Rightarrow> store" where
  "query2 ev g =
     (if event_type ev = ''transfer'' then create_transacted ''Transfer'' None ev g
      else (case ev_payment ev of
              Some p \<Rightarrow>
                create_transacted ''Sale and Transfer''
                  (Some \<lparr>transaction_value = VInt (quantity p),
                         transaction_token_symbol = VStr (symbol p),
                         transaction_token_decimals = VInt (decimals p),
                         transaction_token = VStr (token_address p)\<rparr>) ev g
            | None \<Rightarrow>
                create_transacted ''Sale and Transfer''
                  (Some \<lparr>transaction_value = VInt 0,
                         transaction_token_symbol = VStr ''unknown'',
                         transaction_token_decimals = VStr ''unknown'',
                         transaction_token = VStr ''unknown''\<rparr>) ev g))"

definition insert_new_trx_data :: "event \<Rightarrow> store \<Rightarrow> store" where
  "insert_new_trx_data ev g = query2 ev (query1 ev (query0 (to_address ev) (from_address ev) g))"

section \<open>The ingestion run: \<open>UpdateFunctionality.get_data_from_opensea\<close>\<close>

text \<open>
  \<open>query_api.query_nft_trx_data\<close> is the external event feed: for a request it either
  raises or returns the decoded response with the HTTP status code. The feed is a
  parameter of the model. Of the response the code reads \<open>result['asset_events']\<close>
  (\<open>None\<close> below when the key is missing) and \<open>result['next']\<close>.
\<close>

datatype jnext = Missing | Null | Cursor string

record page =
  asset_events :: "event list option"
  next_cursor :: jnext

record request =
  rq_identifier :: string
  rq_after :: int
  rq_till :: int
  rq_cursor :: "string option"

datatype reply = Reply page int | Failure exn

type_synonym feed = "request \<Rightarrow> reply"

text \<open>
  The local variables \<open>result\<close> and \<open>status_code\<close> are bound together by one tuple
  assignment, and they live across the iterations of the \<open>for\<close> loop: \<open>None\<close> is
  "not bound yet".
\<close>

type_synonym locals = "(page \<times> int) option"

definition get_processed_collection_name :: "string \<Rightarrow> string" where
  "get_processed_collection_name cn =
     (if cn = ''degods-eth'' then ''degods''
      else if cn = ''boredapeyachtclub'' then ''boredapeyachtclub''
      else if cn = ''complete'' then ''complete''
      else cn)"

text \<open>\<open>get_identifier_id_list\<close>: the \<open>id\<close> and \<open>updated_at\<close> of every NFT of the
  collection. The store keeps \<open>updated_at\<close> as the decimal string of the time and the
  code reads it back with \<open>int(...)\<close>; here it is the integer itself.\<close>

definition get_identifier_id_list :: "string \<Rightarrow> store \<Rightarrow> (string \<times> int option) list" where
  "get_identifier_id_list cn g =
     map (\<lambda>n. (n_identifier n, updated_at n))
       (filter (\<lambda>n. label n = NFT \<and> collection_name n = get_processed_collection_name cn)
          (nodes g))"

definition update_nft_node :: "string \<Rightarrow> string \<Rightarrow> int \<Rightarrow> store \<Rightarrow> store" where
  "update_nft_node cn ident t g =
     g\<lparr>nodes := map (\<lambda>n. if label n = NFT \<and> collection_name n = cn \<and> n_identifier n = ident
                           then n\<lparr>updated_at := Some t\<rparr> else n) (nodes g)\<rparr>"

definition insert_all :: "event list \<Rightarrow> store \<Rightarrow> store" where
  "insert_all evs g = fold insert_new_trx_data evs g"

text \<open>
  The first \<open>try\<close> block of an entity. The result says whether the \<open>break\<close> was reached,
  and gives the locals and the store after the block. An exception inside the block
  (the feed raising, or the \<open>KeyError\<close> of a response without \<open>asset_events\<close>) is
  caught by the \<open>except\<close> clause.
\<close>

definition first_page ::
  "feed \<Rightarrow> string \<Rightarrow> int \<Rightarrow> int \<Rightarrow> locals \<Rightarrow> store \<Rightarrow> bool \<times> locals \<times> store" where
  "first_page fd ident last_updated now l g =
     (case fd \<lparr>rq_identifier = ident, rq_after = last_updated, rq_till = now,
                rq_cursor = None\<rparr> of
        Failure e \<Rightarrow> (False, l, g)
      | Reply result status_code \<Rightarrow>
          (case asset_events result of
             None \<Rightarrow> (False, Some (result, status_code), g)
           | Some evs \<Rightarrow>
               if length evs \<noteq> 0 then (True, Some (result, status_code), insert_all evs g)
               else (False, Some (result, status_code), g)))"

text \<open>
  The \<open>while result['next'] != ""\<close> loop. It need not terminate (a feed that keeps
  raising, or keeps answering with a non-empty cursor), so its result is an option:
  \<open>None\<close> is "never returns".
\<close>

partial_function (option) page_loop ::
  "feed \<Rightarrow> string \<Rightarrow> int \<Rightarrow> int \<Rightarrow> locals \<Rightarrow> store \<Rightarrow> (locals outcome \<times> store) option" where
  "page_loop fd ident last_updated now l g =
     (case l of
        None \<Rightarrow> Some (Raise UnboundLocalError, g)
      | Some (result, status_code) \<Rightarrow>
          (case next_cursor result of
             Missing \<Rightarrow> Some (Raise KeyError, g)
           | Cursor c \<Rightarrow>
               if c = [] then Some (Return l, g)
               else (case fd \<lparr>rq_identifier = ident, rq_after = last_updated, rq_till = now,
                               rq_cursor = Some c\<rparr> of
                       Failure e \<Rightarrow> page_loop fd ident last_updated now l g
                     | Reply result' status_code' \<Rightarrow>
                         (case asset_events result' of
                            None \<Rightarrow>
                              page_loop fd ident last_updated now (Some (result', status_code')) g
                          | Some evs \<Rightarrow>
                              page_loop fd ident last_updated now (Some (result', status_code'))
                                (insert_all evs g)))
           | Null \<Rightarrow>
               (case fd \<lparr>rq_identifier = ident, rq_after = last_updated, rq_till = now,
                          rq_cursor = None\<rparr> of
                  Failure e \<Rightarrow> page_loop fd ident last_updated now l g
                | Reply result' status_code' \<Rightarrow>
                    (case asset_events result' of
                       None \<Rightarrow>
                         page_loop fd ident last_updated now (Some (result', status_code')) g
                     | Some evs \<Rightarrow>
                         page_loop fd ident last_updated now (Some (result', status_code'))
                           (insert_all evs g)))))"

declare page_loop.simps [code]

text \<open>
  The \<open>for id_info in ids_list\<close> loop. The \<open>break\<close> of the first \<open>try\<close> block leaves
  this loop, since the inner \<open>for one in ...\<close> loop has ended when it is reached.
\<close>

fun for_ids ::
  "feed \<Rightarrow> string \<Rightarrow> int \<Rightarrow> (string \<times> int option) list \<Rightarrow> locals \<Rightarrow> store \<Rightarrow>
     (unit outcome \<times> store) option" where
  "for_ids fd cn now [] l g = Some (Return (), g)"
| "for_ids fd cn now ((ident, upd) # rest) l g =
     (case upd of
        None \<Rightarrow> Some (Raise TypeError, g)
      | Some last_updated \<Rightarrow>
          if now - last_updated \<ge> 2 * 86400 then
            (case first_page fd ident last_updated now l g of
               (True, l1, g1) \<Rightarrow> Some (Return (), g1)
             | (False, l1, g1) \<Rightarrow>
                 (case page_loop fd ident last_updated now l1 g1 of
                    None \<Rightarrow> None
                  | Some (Raise e, g2) \<Rightarrow> Some (Raise e, g2)
                  | Some (Return l2, g2) \<Rightarrow>
                      (case l2 of
                         None \<Rightarrow> Some (Raise UnboundLocalError, g2)
                       | Some (result, status_code) \<Rightarrow>
                           for_ids fd cn now rest l2
                             (if status_code = 200 then update_nft_node cn ident now g2
                              else g2))))
          else for_ids fd cn now rest l g)"

definition get_data_from_opensea ::
  "feed \<Rightarrow> string \<Rightarrow> int \<Rightarrow> (string \<times> int option) list \<Rightarrow> store \<Rightarrow>
     (unit outcome \<times> store) option" where
  "get_data_from_opensea fd cn current_time_unix ids_list g =
     for_ids fd cn current_time_unix ids_list None g"

section \<open>Scope and collection labels, refresh frequency\<close>

text \<open>
  \<open>str.upper()\<close> on ASCII strings: the letters \<open>a\<close> to \<open>z\<close> move to \<open>A\<close> to \<open>Z\<close>, every
  other ASCII character stays. On a string with other characters Python follows the
  Unicode case tables (the long s becomes \<open>S\<close>, the sharp s becomes \<open>SS\<close>), which \<open>upper\<close>
  does not describe: \<open>ascii\<close> marks the strings on which \<open>upper\<close> is \<open>str.upper()\<close>, and a
  statement about all labels is a statement about all ASCII labels.
\<close>

definition ascii :: "string \<Rightarrow> bool" where
  "ascii s \<longleftrightarrow> list_all (\<lambda>c. (of_char c :: nat) < 128) s"

definition char_upper :: "char \<Rightarrow> char" where
  "char_upper c =
     (let n = (of_char c :: nat) in if 97 \<le> n \<and> n \<le> 122 then char_of (n - 32) else c)"

definition upper :: "string \<Rightarrow> string" where
  "upper s = map char_upper s"

text \<open>\<open>CommunityLogic.get_scope\<close>.\<close>

definition get_scope :: "string \<Rightarrow> nat outcome" where
  "get_scope scope =
     (if upper scope = ''OWNERSHIP'' then Return 0
      else if upper scope = ''TRANSACTION'' then Return 1
      else if upper scope = ''ALL'' then Return 2
      else Raise NotExistsException)"

text \<open>\<open>CommunityLogic.get_collection\<close> and \<open>CentralityLogic.get_collection\<close>.\<close>

definition get_collection :: "string list \<Rightarrow> string outcome" where
  "get_collection collection =
     (let collection_upper = map upper collection in
      if length collection_upper = 1 \<and> collection_upper ! 0 = ''BOREDAPES''
        then Return ''boredapeyachtclub''
      else if length collection_upper = 1 \<and> collection_upper ! 0 = ''DEGODS''
        then Return ''degods''
      else if length collection_upper = 2 \<and> ''BOREDAPES'' \<in> set collection_upper \<and>
              ''DEGODS'' \<in> set collection_upper
        then Return ''complete''
      else Raise NotExistsException)"

definition get_collection_centrality :: "string list \<Rightarrow> string outcome" where
  "get_collection_centrality collection =
     (let collection_upper = map upper collection in
      if length collection_upper = 1 \<and> collection_upper ! 0 = ''BOREDAPES''
        then Return ''boredapeyachtclub''
      else if length collection_upper = 1 \<and> collection_upper ! 0 = ''DEGODS''
        then Return ''degods-eth''
      else if length collection_upper = 2 \<and> ''BOREDAPES'' \<in> set collection_upper \<and>
              ''DEGODS'' \<in> set collection_upper
        then Return []
      else Raise NotExistsException)"

text \<open>\<open>UpdateFunctionality.get_update_frequency\<close>: the \<open>update_frequency\<close> of the first
  \<open>Update_Info\<close> node of the collection (\<open>None\<close> when the node lacks the property).\<close>

definition get_update_frequency :: "string \<Rightarrow> store \<Rightarrow> int option" where
  "get_update_frequency cn g =
     (let result = filter (\<lambda>u. ui_collection_name u = get_processed_collection_name cn)
                     (update_infos g)
      in if length result > 0 then update_frequency (result ! 0) else Some 86000)"

section \<open>Projections\<close>

text \<open>
  Operations on the store return an outcome together with the store they leave behind:
  what an operation wrote before it raised stays written.
\<close>

definition and_then ::
  "(store \<Rightarrow> 'a outcome \<times> store) \<Rightarrow> ('a \<Rightarrow> store \<Rightarrow> 'b outcome \<times> store) \<Rightarrow>
     store \<Rightarrow> 'b outcome \<times> store" where
  "and_then m f g = (case m g of (Raise e, g') \<Rightarrow> (Raise e, g') | (Return x, g') \<Rightarrow> f x g')"

text \<open>
  The catalog of projections is the set of the names in \<open>projections\<close>;
  \<open>gds.graph.list()\<close> yields each name once. \<open>gds.graph.drop(name)\<close> raises when there
  is no projection of that name, \<open>gds.graph.project(name, ...)\<close> and
  \<open>gds.graph.project.cypher(name, ...)\<close> raise when there is one already.
\<close>

definition gds_graph_list :: "store \<Rightarrow> string list" where
  "gds_graph_list g = remdups (projections g)"

definition gds_graph_drop :: "string \<Rightarrow> store \<Rightarrow> unit outcome \<times> store" where
  "gds_graph_drop name g =
     (if name \<in> set (projections g)
      then (Return (), g\<lparr>projections := removeAll name (projections g)\<rparr>)
      else (Raise ClientError, g))"

definition gds_graph_project :: "string \<Rightarrow> store \<Rightarrow> unit outcome \<times> store" where
  "gds_graph_project name g =
     (if name \<in> set (projections g) then (Raise ClientError, g)
      else (Return (), g\<lparr>projections := projections g @ [name]\<rparr>))"

text \<open>
  The analytics engine is external: \<open>engine name\<close> is what the algorithm streams for the
  projection \<open>name\<close>, pairs of a node id and a score or a community id, or the exception
  it raises. A stream call on a name that is not in the catalog raises.
  \<open>LIMIT\<close> with a negative number is rejected by the store.
\<close>

type_synonym engine = "string \<Rightarrow> (nat \<times> int) list outcome"

definition stream :: "engine \<Rightarrow> string \<Rightarrow> store \<Rightarrow> (nat \<times> int) list outcome" where
  "stream en name g = (if name \<in> set (projections g) then en name else Raise ClientError)"

definition limit_rows :: "int \<Rightarrow> 'a list \<Rightarrow> 'a list outcome" where
  "limit_rows k rows = (if k < 0 then Raise ClientError else Return (take (nat k) rows))"

text \<open>\<open>CALL gds.degree.stream(name, ...) YIELD nodeId, score ... ORDER BY score DESC
  LIMIT $limit\<close>.\<close>

definition degree_centrality_query ::
  "engine \<Rightarrow> string \<Rightarrow> int \<Rightarrow> store \<Rightarrow> (nat \<times> int) list outcome \<times> store" where
  "degree_centrality_query en name k g =
     (case stream en name g of
        Raise e \<Rightarrow> (Raise e, g)
      | Return rows \<Rightarrow> (limit_rows k (sort_key (\<lambda>r. - snd r) rows), g))"

definition drop_if_listed :: "string \<Rightarrow> store \<Rightarrow> unit outcome \<times> store" where
  "drop_if_listed name g =
     (let graph_names = gds_graph_list g in
      if name \<in> set graph_names then gds_graph_drop name g else (Return (), g))"

text \<open>
  \<open>CentralityLogic.get_most_central_nodes\<close>. After the last drop the code only reads the
  store (the relationships among the returned nodes) and formats the response; the
  model returns the scored nodes.
\<close>

definition get_most_central_nodes ::
  "engine \<Rightarrow> int \<Rightarrow> string list \<Rightarrow> store \<Rightarrow> (nat \<times> int) list outcome \<times> store" where
  "get_most_central_nodes en limit collection g =
     (case get_collection_centrality collection of
        Raise e \<Rightarrow> (Raise e, g)
      | Return collection_processed \<Rightarrow>
          and_then (drop_if_listed ''centralityGraph'')
            (\<lambda>_. and_then (gds_graph_project ''centralityGraph'')
              (\<lambda>_. and_then (degree_centrality_query en ''centralityGraph'' limit)
                (\<lambda>central_nodes. and_then (gds_graph_drop ''centralityGraph'')
                  (\<lambda>_ g'. (Return central_nodes, g'))))) g)"

text \<open>
  \<open>CommunityLogic.get_single_community\<close>, up to the drop of its projection. The count
  query compares \<open>n.{collection}_com_id_list[{scope}]\<close> with the community id; a missing
  array or an index out of range gives \<open>null\<close>, which is equal to nothing.
\<close>

definition in_community :: "string \<Rightarrow> nat \<Rightarrow> int \<Rightarrow> node \<Rightarrow> bool" where
  "in_community c scope community_id n =
     (case com_id_list n c of
        None \<Rightarrow> False
      | Some xs \<Rightarrow> scope < length xs \<and> xs ! scope = community_id)"

definition get_single_community ::
  "engine \<Rightarrow> int \<Rightarrow> string \<Rightarrow> string list \<Rightarrow> int \<Rightarrow> store \<Rightarrow>
     (nat \<times> (nat \<times> int) list) outcome \<times> store" where
  "get_single_community en community_id scope collection limit g =
     (case get_scope scope of
        Raise e \<Rightarrow> (Raise e, g)
      | Return scope_processed \<Rightarrow>
          (case get_collection collection of
             Raise e \<Rightarrow> (Raise e, g)
           | Return collection_processed \<Rightarrow>
               and_then (drop_if_listed ''tempGraph'')
                 (\<lambda>_ g1.
                    let total_node_count =
                          length (filter (in_community collection_processed scope_processed
                                            community_id) (nodes g1))
                    in if total_node_count = 0 then (Raise NotExistsException, g1)
                       else and_then (gds_graph_project ''tempGraph'')
                              (\<lambda>_. and_then (degree_centrality_query en ''tempGraph'' limit)
                                (\<lambda>top_nodes. and_then (gds_graph_drop ''tempGraph'')
                                  (\<lambda>_ g'. (Return (total_node_count, top_nodes), g')))) g1)
                 g))"

section \<open>Community detection: \<open>CommunityDetection\<close>\<close>

text \<open>\<open>update_project_graph\<close> and \<open>update_project_graph_complete\<close>: drop every listed
  projection, then create the three projections of the collection.\<close>

fun drop_all :: "string list \<Rightarrow> store \<Rightarrow> unit outcome \<times> store" where
  "drop_all [] g = (Return (), g)"
| "drop_all (graph # graph_names) g =
     and_then (gds_graph_drop graph) (\<lambda>_. drop_all graph_names) g"

definition update_project_graph :: "string \<Rightarrow> store \<Rightarrow> unit outcome \<times> store" where
  "update_project_graph cn g =
     and_then (drop_all (gds_graph_list g))
       (\<lambda>_. and_then (gds_graph_project (cn @ ''_owned''))
         (\<lambda>_. and_then (gds_graph_project (cn @ ''_trx''))
           (\<lambda>_. gds_graph_project (cn @ ''_owned_trx'')))) g"

definition update_project_graph_complete :: "store \<Rightarrow> unit outcome \<times> store" where
  "update_project_graph_complete g =
     and_then (drop_all (gds_graph_list g))
       (\<lambda>_. and_then (gds_graph_project ''complete_owned'')
         (\<lambda>_. and_then (gds_graph_project ''complete_trx'')
           (\<lambda>_. gds_graph_project ''complete_owned_trx''))) g"

text \<open>
  The community query: \<open>CALL gds.louvain.stream(name) YIELD nodeId, communityId ...
  RETURN communityId, COLLECT(...) AS nodes, COLLECT(node) AS nodeList ORDER BY
  size(nodes) DESC\<close>, with \<open>LIMIT {limit}\<close> appended when \<open>limit != 0\<close>. A row is a
  community id with the ids of its member nodes. The engine streams nodes of the store.
\<close>

definition group_communities :: "(nat \<times> int) list \<Rightarrow> (int \<times> nat list) list" where
  "group_communities rows =
     map (\<lambda>c. (c, map fst (filter (\<lambda>r. snd r = c) rows))) (remdups (map snd rows))"

definition com_query ::
  "engine \<Rightarrow> string \<Rightarrow> int \<Rightarrow> store \<Rightarrow> (int \<times> nat list) list outcome" where
  "com_query en name limit g =
     (case stream en name g of
        Raise e \<Rightarrow> Raise e
      | Return rows \<Rightarrow>
          (let ordered = sort_key (\<lambda>r. - int (length (snd r))) (group_communities rows)
           in if limit \<noteq> 0 then limit_rows limit ordered else Return ordered))"

text \<open>
  \<open>update_nodes_com_property\<close>: read the membership array of every member node
  (\<open>get_all_node_properties\<close>), store the community id at index \<open>scope\<close> of each, and
  write the arrays back in one query (\<open>update_node_properties\<close>). Assigning into an
  array that is \<open>None\<close> raises \<open>TypeError\<close>, an index out of range \<open>IndexError\<close>; both
  happen before anything is written.
\<close>

definition get_all_node_properties :: "string \<Rightarrow> store \<Rightarrow> nat \<Rightarrow> int list option" where
  "get_all_node_properties c g nid =
     (case filter (\<lambda>n. node_id n = nid) (nodes g) of
        [] \<Rightarrow> None
      | n # ns \<Rightarrow> com_id_list (last (n # ns)) c)"

fun node_updates ::
  "string \<Rightarrow> int \<Rightarrow> nat \<Rightarrow> store \<Rightarrow> nat list \<Rightarrow> (nat \<times> int list) list outcome" where
  "node_updates c communityId scope g [] = Return []"
| "node_updates c communityId scope g (nid # rest) =
     (case get_all_node_properties c g nid of
        None \<Rightarrow> Raise TypeError
      | Some original_value \<Rightarrow>
          if scope < length original_value then
            (case node_updates c communityId scope g rest of
               Raise e \<Rightarrow> Raise e
             | Return us \<Rightarrow> Return ((nid, original_value[scope := communityId]) # us))
          else Raise IndexError)"

definition set_property :: "string \<Rightarrow> nat \<times> int list \<Rightarrow> store \<Rightarrow> store" where
  "set_property c u g =
     g\<lparr>nodes := map (\<lambda>n. if node_id n = fst u
                           then n\<lparr>com_id_list := (com_id_list n)(c := Some (snd u))\<rparr> else n)
                    (nodes g)\<rparr>"

definition update_node_properties :: "(nat \<times> int list) list \<Rightarrow> string \<Rightarrow> store \<Rightarrow> store" where
  "update_node_properties us c g = fold (set_property c) us g"

definition update_nodes_com_property ::
  "string \<Rightarrow> int \<Rightarrow> nat list \<Rightarrow> nat \<Rightarrow> store \<Rightarrow> unit outcome \<times> store" where
  "update_nodes_com_property cn communityId members scope g =
     (let c = get_processed_collection_name cn in
      case node_updates c communityId scope g members of
        Raise e \<Rightarrow> (Raise e, g)
      | Return us \<Rightarrow> (Return (), update_node_properties us c g))"

text \<open>
  \<open>update_community_id_info\<close>: the property \<open>{c}_id_list\<close> of the \<open>Community_Info\<close> node
  is the JSON text of an array of id lists, one per scope; the model keeps the decoded
  array. The code reads the first node and writes every node.
\<close>

definition update_community_id_info ::
  "int list \<Rightarrow> string \<Rightarrow> nat \<Rightarrow> store \<Rightarrow> unit outcome \<times> store" where
  "update_community_id_info idList cn scope g =
     (let c = get_processed_collection_name cn in
      case community_infos g of
        [] \<Rightarrow> (Raise IndexError, g)
      | record # _ \<Rightarrow>
          (case record c of
             None \<Rightarrow> (Raise TypeError, g)
           | Some array_property \<Rightarrow>
               if scope < length array_property
               then (Return (),
                     g\<lparr>community_infos :=
                         map (\<lambda>n. n(c := Some (array_property[scope := idList])))
                           (community_infos g)\<rparr>)
               else (Raise IndexError, g)))"

text \<open>
  \<open>update_community_detection\<close> runs the same block three times, on the projections
  \<open>{collection}_owned\<close>, \<open>{collection}_trx\<close> and \<open>{collection}_owned_trx\<close> with the
  indices 0, 1 and 2. \<open>for_records\<close> is the loop over the rows of the community query,
  \<open>detect_scope\<close> one block.
\<close>

fun for_records ::
  "string \<Rightarrow> nat \<Rightarrow> (int \<times> nat list) list \<Rightarrow> store \<Rightarrow> int list outcome \<times> store" where
  "for_records cn scope [] g = (Return [], g)"
| "for_records cn scope (record # rest) g =
     and_then (update_nodes_com_property cn (fst record) (snd record) scope)
       (\<lambda>_. and_then (for_records cn scope rest)
         (\<lambda>community_id g'. (Return (fst record # community_id), g'))) g"

definition detect_scope ::
  "engine \<Rightarrow> int \<Rightarrow> string \<Rightarrow> string \<Rightarrow> nat \<Rightarrow> store \<Rightarrow> unit outcome \<times> store" where
  "detect_scope en limit cn suffix scope g =
     (case com_query en (cn @ suffix) limit g of
        Raise e \<Rightarrow> (Raise e, g)
      | Return community_result \<Rightarrow>
          and_then (for_records cn scope community_result)
            (\<lambda>community_id. update_community_id_info community_id cn scope) g)"

definition update_community_detection ::
  "engine \<Rightarrow> int \<Rightarrow> string \<Rightarrow> store \<Rightarrow> unit outcome \<times> store" where
  "update_community_detection en limit cn g =
     and_then (detect_scope en limit cn ''_owned'' 0)
       (\<lambda>_. and_then (detect_scope en limit cn ''_trx'' 1)
         (\<lambda>_. detect_scope en limit cn ''_owned_trx'' 2)) g"

text \<open>\<open>run_community_detection\<close>: any exception is caught and reported in the returned
  text. The cache, which the run clears at the end, is not part of the model.\<close>

definition run_community_detection :: "engine \<Rightarrow> int \<Rightarrow> string \<Rightarrow> store \<Rightarrow> string \<times> store" where
  "run_community_detection en limit cn g =
     (case and_then (if cn \<noteq> ''complete'' then update_project_graph cn
                     else update_project_graph_complete)
             (\<lambda>_. update_community_detection en limit cn) g of
        (Return _, g') \<Rightarrow> (''Update Completed'', g')
      | (Raise e, g') \<Rightarrow> (''Something went wrong QAQ'', g'))"

section \<open>Concurrent centrality operations\<close>

text \<open>
  \<open>get_most_central_nodes\<close> takes no lock. It reaches the store through five calls of
  \<open>run_query\<close>, one after the other: \<open>gds.graph.list\<close>, the drop of a listed projection
  \<open>centralityGraph\<close>, the creation of the projection, the scoring query and the final
  drop. Each call is one step on the shared store, and between two steps of one caller
  another caller of the same process may take steps of its own. A caller is the
  position in the function with its local variables; a schedule says whose step comes
  next. The log records who created and who dropped the projection, in order.
\<close>

datatype position = AtList | AtCleanUp | AtCreate | AtScoring | AtDrop | AtReturn

record caller =
  at :: position
  graph_names :: "string list"
  central_nodes :: "(nat \<times> int) list"
  raised :: "exn option"

datatype who = CallerA | CallerB

datatype catalog_op = Create | Drop

definition start :: "string list \<Rightarrow> caller" where
  "start collection =
     (case get_collection_centrality collection of
        Raise e \<Rightarrow> \<lparr>at = AtReturn, graph_names = [], central_nodes = [], raised = Some e\<rparr>
      | Return collection_processed \<Rightarrow>
          \<lparr>at = AtList, graph_names = [], central_nodes = [], raised = None\<rparr>)"

definition caller_step ::
  "engine \<Rightarrow> int \<Rightarrow> caller \<Rightarrow> store \<Rightarrow> caller \<times> store \<times> catalog_op list" where
  "caller_step en limit c g =
     (case raised c of
        Some e \<Rightarrow> (c, g, [])
      | None \<Rightarrow>
          (case at c of
             AtList \<Rightarrow> (c\<lparr>at := AtCleanUp, graph_names := gds_graph_list g\<rparr>, g, [])
           | AtCleanUp \<Rightarrow>
               if ''centralityGraph'' \<in> set (graph_names c) then
                 (case gds_graph_drop ''centralityGraph'' g of
                    (Return u, g') \<Rightarrow> (c\<lparr>at := AtCreate\<rparr>, g', [Drop])
                  | (Raise e, g') \<Rightarrow> (c\<lparr>raised := Some e\<rparr>, g', []))
               else (c\<lparr>at := AtCreate\<rparr>, g, [])
           | AtCreate \<Rightarrow>
               (case gds_graph_project ''centralityGraph'' g of
                  (Return u, g') \<Rightarrow> (c\<lparr>at := AtScoring\<rparr>, g', [Create])
                | (Raise e, g') \<Rightarrow> (c\<lparr>raised := Some e\<rparr>, g', []))
           | AtScoring \<Rightarrow>
               (case degree_centrality_query en ''centralityGraph'' limit g of
                  (Return rows, g') \<Rightarrow> (c\<lparr>at := AtDrop, central_nodes := rows\<rparr>, g', [])
                | (Raise e, g') \<Rightarrow> (c\<lparr>raised := Some e\<rparr>, g', []))
           | AtDrop \<Rightarrow>
               (case gds_graph_drop ''centralityGraph'' g of
                  (Return u, g') \<Rightarrow> (c\<lparr>at := AtReturn\<rparr>, g', [Drop])
                | (Raise e, g') \<Rightarrow> (c\<lparr>raised := Some e\<rparr>, g', []))
           | AtReturn \<Rightarrow> (c, g, [])))"

text \<open>What the caller returns or raises, once it is at its end.\<close>

definition outcome_of :: "caller \<Rightarrow> (nat \<times> int) list outcome" where
  "outcome_of c = (case raised c of Some e \<Rightarrow> Raise e | None \<Rightarrow> Return (central_nodes c))"

record system =
  shared :: store
  caller_a :: caller
  caller_b :: caller
  catalog_log :: "(who \<times> catalog_op) list"

definition system_step :: "engine \<Rightarrow> int \<Rightarrow> who \<Rightarrow> system \<Rightarrow> system" where
  "system_step en limit w s =
     (case w of
        CallerA \<Rightarrow>
          (case caller_step en limit (caller_a s) (shared s) of
             (c, g, ops) \<Rightarrow>
               s\<lparr>shared := g, caller_a := c,
                 catalog_log := catalog_log s @ map (Pair CallerA) ops\<rparr>)
      | CallerB \<Rightarrow>
          (case caller_step en limit (caller_b s) (shared s) of
             (c, g, ops) \<Rightarrow>
               s\<lparr>shared := g, caller_b := c,
                 catalog_log := catalog_log s @ map (Pair CallerB) ops\<rparr>))"

definition run_schedule :: "engine \<Rightarrow> int \<Rightarrow> who list \<Rightarrow> system \<Rightarrow> system" where
  "run_schedule en limit schedule s = fold (system_step en limit) schedule s"

definition two_callers :: "string list \<Rightarrow> string list \<Rightarrow> store \<Rightarrow> system" where
  "two_callers collection_a collection_b g =
     \<lparr>shared = g, caller_a = start collection_a, caller_b = start collection_b,
      catalog_log = []\<rparr>"

section \<open>Observations and concrete inputs\<close>

text \<open>The \<open>TRANSACTED\<close> relationships with a given transaction hash and NFT identifier,
  and the \<open>OWNED\<close> relationships into a node that are flagged as currently owned.\<close>

definition edges_for :: "string \<Rightarrow> string \<Rightarrow> store \<Rightarrow> transacted_rel list" where
  "edges_for h i g = filter (\<lambda>t. transaction_hash t = h \<and> t_identifier t = i) (transacted g)"

definition holders :: "nat \<Rightarrow> store \<Rightarrow> owned_rel list" where
  "holders n g = filter (\<lambda>e. o_dst e = n \<and> currently_owned e = Some True) (owned g)"

text \<open>A store with the NFTs 7 and 8 of one collection, and transfer events of NFT 7.\<close>

definition nft7 :: node where
  "nft7 = \<lparr>node_id = 1, label = NFT, address = [], n_identifier = ''7'',
           collection_name = ''boredapeyachtclub'', updated_at = Some 0,
           com_id_list = (\<lambda>c. None)\<rparr>"

definition nft8 :: node where
  "nft8 = \<lparr>node_id = 2, label = NFT, address = [], n_identifier = ''8'',
           collection_name = ''boredapeyachtclub'', updated_at = Some 0,
           com_id_list = (\<lambda>c. None)\<rparr>"

definition store0 :: store where
  "store0 = \<lparr>nodes = [nft7, nft8], owned = [], transacted = [], update_infos = [],
             community_infos = [], projections = []\<rparr>"

definition transfer :: "string \<Rightarrow> string \<Rightarrow> string \<Rightarrow> string \<Rightarrow> int \<Rightarrow> event" where
  "transfer f t i h ts =
     \<lparr>event_type = ''transfer'', from_address = f, to_address = t, nft_identifier = i,
      nft_collection = ''boredapeyachtclub'', ev_transaction = h, event_timestamp = ts,
      ev_payment = None\<rparr>"

definition ev_ab :: event where
  "ev_ab = transfer ''0xa'' ''0xb'' ''7'' ''0xh1'' 100"

definition ev_cd :: event where
  "ev_cd = transfer ''0xc'' ''0xd'' ''7'' ''0xh2'' 200"

definition ev_bc :: event where
  "ev_bc = transfer ''0xb'' ''0xc'' ''7'' ''0xh3'' 150"

definition ev8 :: event where
  "ev8 = transfer ''0xa'' ''0xb'' ''8'' ''0xh4'' 120"

text \<open>The Account of \<open>0xb\<close> after a detection run has stored the community id 42 at
  index 0 of its \<open>boredapeyachtclub_com_id_list\<close>.\<close>

definition account_b :: node where
  "account_b = \<lparr>node_id = 3, label = Account, address = ''0xb'', n_identifier = [],
                collection_name = [], updated_at = None,
                com_id_list = (\<lambda>c. if c = ''boredapeyachtclub'' then Some [42, 2, 3]
                                    else if c = ''complete'' \<or> c = ''degods'' then Some mock_data
                                    else None)\<rparr>"

definition store_b :: store where
  "store_b = store0\<lparr>nodes := [nft7, nft8, account_b]\<rparr>"

text \<open>
  Feeds. \<open>feed_pages\<close> has two pages for NFT 7 (the first with the cursor \<open>c1\<close>) and one
  page for NFT 8. \<open>feed_fail8\<close> answers for NFT 7 with an empty last page and raises for
  NFT 8. \<open>feed_fail7\<close> raises for NFT 7 and answers for NFT 8.
\<close>

definition last_page :: "event list \<Rightarrow> reply" where
  "last_page evs = Reply \<lparr>asset_events = Some evs, next_cursor = Cursor []\<rparr> 200"

definition feed_pages :: feed where
  "feed_pages rq =
     (if rq_identifier rq = ''7'' then
        (case rq_cursor rq of
           None \<Rightarrow> Reply \<lparr>asset_events = Some [ev_ab], next_cursor = Cursor ''c1''\<rparr> 200
         | Some c \<Rightarrow> last_page [ev_bc])
      else last_page [ev8])"

definition feed_fail8 :: feed where
  "feed_fail8 rq = (if rq_identifier rq = ''7'' then last_page [] else Failure ConnectionError)"

definition feed_fail7 :: feed where
  "feed_fail7 rq = (if rq_identifier rq = ''7'' then Failure ConnectionError else last_page [ev8])"

text \<open>What a run leaves behind: its outcome, the transaction hashes of the
  \<open>TRANSACTED\<close> relationships, and the \<open>updated_at\<close> of the NFT nodes.\<close>

definition observe ::
  "(unit outcome \<times> store) option \<Rightarrow> (unit outcome \<times> string list \<times> int option list) option" where
  "observe r =
     map_option (\<lambda>(out, g). (out, map transaction_hash (transacted g),
                               map updated_at (filter (\<lambda>n. label n = NFT) (nodes g)))) r"

definition run_feed :: "feed \<Rightarrow> (unit outcome \<times> store) option" where
  "run_feed fd =
     get_data_from_opensea fd ''boredapeyachtclub'' 200000
       (get_identifier_id_list ''boredapeyachtclub'' store0) store0"

text \<open>
  A store for the analytical operations: nine Account nodes with the initial membership
  arrays, and the \<open>Community_Info\<close> node as \<open>build_community_info_node\<close> creates it. The
  engine \<open>louvain5\<close> streams five communities (10 to 14, of the sizes 1, 2, 3, 1, 2) for
  every projection, \<open>engine_down\<close> raises.
\<close>

definition store_d :: store where
  "store_d = \<lparr>nodes = map (\<lambda>i. new_account i (replicate i CHR ''a'')) [1..<10],
              owned = [], transacted = [], update_infos = [],
              community_infos =
                [\<lambda>c. if c = ''boredapeyachtclub'' \<or> c = ''degods''
                      then Some [[1, 2], [3, 4], [5, 6], [7, 8]] else None],
              projections = []\<rparr>"

definition louvain5 :: engine where
  "louvain5 name =
     Return [(1, 10), (2, 11), (3, 11), (4, 12), (5, 12), (6, 12), (7, 13), (8, 14), (9, 14)]"

definition engine_down :: engine where
  "engine_down name = Raise ConnectionError"

definition store_stale :: "string \<Rightarrow> store" where
  "store_stale name = store_d\<lparr>projections := [name]\<rparr>"

text \<open>The store \<open>store0\<close> with a \<open>Community_Info\<close> node, and an engine that puts the
  nodes 3 and 4 into the community 20.\<close>

definition store_ci :: store where
  "store_ci = store0\<lparr>community_infos :=
                [\<lambda>c. if c = ''boredapeyachtclub'' \<or> c = ''degods''
                      then Some [[1, 2], [3, 4], [5, 6], [7, 8]] else None]\<rparr>"

definition louvain_ab :: engine where
  "louvain_ab name = Return [(3, 20), (4, 20)]"

text \<open>
  The summary list of a scope as \<open>CommunityLogic.get_community_sum\<close> reads it: the entry
  \<open>scope\<close> of the decoded \<open>{c}_id_list\<close> of the first \<open>Community_Info\<close> node.
\<close>

definition community_summary :: "string \<Rightarrow> nat \<Rightarrow> store \<Rightarrow> int list option" where
  "community_summary c scope g =
     (case community_infos g of
        [] \<Rightarrow> None
      | n # _ \<Rightarrow>
          (case n c of
             None \<Rightarrow> None
           | Some arr \<Rightarrow> if scope < length arr then Some (arr ! scope) else None))"

text \<open>
  The specification of the summary list, in the words of the claim: \<open>ids\<close> are the ids of
  the \<open>k\<close> largest communities of the stream \<open>rows\<close> (all of them when \<open>k = 0\<close> or when
  there are fewer than \<open>k\<close>), in the order of descending size.
\<close>

definition community_size :: "(nat \<times> int) list \<Rightarrow> int \<Rightarrow> nat" where
  "community_size rows c = length (filter (\<lambda>r. snd r = c) rows)"

definition top_k_by_size :: "int \<Rightarrow> (nat \<times> int) list \<Rightarrow> int list \<Rightarrow> bool" where
  "top_k_by_size k rows ids \<longleftrightarrow>
     distinct ids \<and> set ids \<subseteq> snd ` set rows \<and>
     sorted_wrt (\<lambda>a b. community_size rows b \<le> community_size rows a) ids \<and>
     (\<forall>c \<in> snd ` set rows. c \<notin> set ids \<longrightarrow>
        (\<forall>d \<in> set ids. community_size rows c \<le> community_size rows d)) \<and>
     length ids = (if k = 0 then card (snd ` set rows) else min (nat k) (card (snd ` set rows)))"

text \<open>The store \<open>store_d\<close> after \<open>update_project_graph\<close> for the collection
  \<open>boredapeyachtclub\<close>, and the stream of \<open>louvain5\<close>.\<close>

definition store_p :: store where
  "store_p = store_d\<lparr>projections := [''boredapeyachtclub_owned'', ''boredapeyachtclub_trx'',
                                      ''boredapeyachtclub_owned_trx'']\<rparr>"

definition rows5 :: "(nat \<times> int) list" where
  "rows5 = [(1, 10), (2, 11), (3, 11), (4, 12), (5, 12), (6, 12), (7, 13), (8, 14), (9, 14)]"

text \<open>
  Node \<open>nid\<close> carries the community id \<open>cid\<close> at index \<open>scope\<close> of its membership array
  for the collection \<open>c\<close>: there is a node with that id, and every such node has it.
\<close>

definition has_community :: "string \<Rightarrow> nat \<Rightarrow> int \<Rightarrow> nat \<Rightarrow> store \<Rightarrow> bool" where
  "has_community c scope cid nid g \<longleftrightarrow>
     filter (\<lambda>n. node_id n = nid) (nodes g) \<noteq> [] \<and>
     list_all (in_community c scope cid) (filter (\<lambda>n. node_id n = nid) (nodes g))"

text \<open>What \<open>update_node_properties\<close> does to a single node when every member \<open>nid\<close> of
  \<open>ms\<close> gets the array \<open>h nid\<close>.\<close>

definition write_members :: "string \<Rightarrow> (nat \<Rightarrow> int list) \<Rightarrow> nat list \<Rightarrow> node \<Rightarrow> node" where
  "write_members c h ms n =
     (if node_id n \<in> set ms then n\<lparr>com_id_list := (com_id_list n)(c := Some (h (node_id n)))\<rparr>
      else n)"

text \<open>
  The address \<open>a\<close> is a key of the Account nodes as far as \<open>query0\<close> can see: at most one
  Account node has it, and that node still matches the pattern of the \<open>MERGE\<close>.
\<close>

definition address_keyed :: "string \<Rightarrow> store \<Rightarrow> bool" where
  "address_keyed a g \<longleftrightarrow>
     length (match_account g a) \<le> 1 \<and> list_all (merge_pattern a) (match_account g a)"

text \<open>The end nodes of a \<open>TRANSACTED\<close> relationship with its transaction hash and NFT
  identifier.\<close>

definition trx_key :: "transacted_rel \<Rightarrow> nat \<times> nat \<times> string \<times> string" where
  "trx_key e = (t_src e, t_dst e, transaction_hash e, t_identifier e)"

text \<open>An engine that answers for the ownership projection of \<open>boredapeyachtclub\<close> and
  raises for every other projection.\<close>

definition louvain_owned_only :: engine where
  "louvain_owned_only name =
     (if name = ''boredapeyachtclub_owned'' then Return rows5 else Raise ConnectionError)"

text \<open>An engine that streams NFT 7 (node 1), which has no membership array in
  \<open>store_ci\<close>, next to the two Account nodes 3 and 4.\<close>

definition louvain_nft :: engine where
  "louvain_nft name = Return [(1, 30), (3, 31), (4, 31)]"



section \<open>Properties of the per-event mutation\<close>

lemma length_pairs: "length (pairs xs ys) = length xs * length ys"
  by (induction xs) (simp_all add: pairs_def)

lemma merge_pattern_is_account: "merge_pattern a n \<Longrightarrow> is_account a n"
  by (simp add: merge_pattern_def is_account_def)

lemma new_account_is_account: "is_account a (new_account i a)"
  by (simp add: is_account_def new_account_def)

lemma match_account_merge_same: "match_account (merge_account a g) a \<noteq> []"
proof (cases "list_ex (merge_pattern a) (nodes g)")
  case True
  then obtain n where "n \<in> set (nodes g)" "merge_pattern a n"
    by (auto simp: list_ex_iff)
  then have "n \<in> set (match_account g a)"
    by (simp add: match_account_def merge_pattern_is_account)
  with True show ?thesis
    by (auto simp: merge_account_def)
next
  case False
  then show ?thesis
    by (simp add: merge_account_def match_account_def new_account_is_account)
qed

lemma match_account_merge_mono:
  "match_account g a \<noteq> [] \<Longrightarrow> match_account (merge_account b g) a \<noteq> []"
  by (simp add: merge_account_def match_account_def)

lemma query0_matches:
  "match_account (query0 t f g) f \<noteq> []" "match_account (query0 t f g) t \<noteq> []"
  by (simp_all add: query0_def match_account_merge_same match_account_merge_mono)

lemma query1_nodes [simp]: "nodes (query1 ev g) = nodes g"
  by (simp add: query1_def Let_def)

lemma query1_transacted [simp]: "transacted (query1 ev g) = transacted g"
  by (simp add: query1_def Let_def)

lemma match_account_query1 [simp]: "match_account (query1 ev g) a = match_account g a"
  by (simp add: match_account_def)

lemma edges_for_create:
  "length (edges_for (ev_transaction ev) (nft_identifier ev) (create_transacted ety pay ev g)) =
   length (edges_for (ev_transaction ev) (nft_identifier ev) g) +
   length (match_account g (from_address ev)) * length (match_account g (to_address ev))"
  by (simp add: edges_for_def create_transacted_def filter_map o_def split_def length_pairs)

lemma edges_for_query2:
  "length (edges_for (ev_transaction ev) (nft_identifier ev) (query2 ev g)) =
   length (edges_for (ev_transaction ev) (nft_identifier ev) g) +
   length (match_account g (from_address ev)) * length (match_account g (to_address ev))"
  by (simp add: query2_def edges_for_create split: option.split)

lemma query0_transacted [simp]: "transacted (query0 t f g) = transacted g"
  by (simp add: query0_def merge_account_def)

lemma edges_for_cong: "transacted g = transacted g' \<Longrightarrow> edges_for h i g = edges_for h i g'"
  by (simp add: edges_for_def)

lemma insert_adds_edge:
  "length (edges_for (ev_transaction ev) (nft_identifier ev) (insert_new_trx_data ev g)) >
   length (edges_for (ev_transaction ev) (nft_identifier ev) g)"
proof -
  let ?g0 = "query0 (to_address ev) (from_address ev) g"
  have "match_account ?g0 (from_address ev) \<noteq> []" "match_account ?g0 (to_address ev) \<noteq> []"
    by (rule query0_matches)+
  then have "0 < length (match_account ?g0 (from_address ev)) *
                 length (match_account ?g0 (to_address ev))"
    by simp
  moreover have "edges_for (ev_transaction ev) (nft_identifier ev) (query1 ev ?g0) =
      edges_for (ev_transaction ev) (nft_identifier ev) g"
    by (rule edges_for_cong) simp
  ultimately show ?thesis
    by (simp add: insert_new_trx_data_def edges_for_query2)
qed

text \<open>
  C1, as the claim states it, fails: applying the event \<open>ev_ab\<close> twice to \<open>store0\<close>
  leaves two \<open>TRANSACTED\<close> relationships with its transaction hash and identifier.
\<close>

theorem C1_twice_two_edges:
  "length (edges_for ''0xh1'' ''7''
             (insert_new_trx_data ev_ab (insert_new_trx_data ev_ab store0))) = 2"
  by code_simp

lemma trx_key_create:
  "map trx_key (transacted (create_transacted ety pay ev g)) =
   map trx_key (transacted g) @
   map (\<lambda>(f, t). (f, t, ev_transaction ev, nft_identifier ev))
     (pairs (match_account g (from_address ev)) (match_account g (to_address ev)))"
  by (simp add: create_transacted_def trx_key_def o_def split_def)

lemma trx_key_query2:
  "map trx_key (transacted (query2 ev g)) =
   map trx_key (transacted g) @
   map (\<lambda>(f, t). (f, t, ev_transaction ev, nft_identifier ev))
     (pairs (match_account g (from_address ev)) (match_account g (to_address ev)))"
  by (simp add: query2_def trx_key_create split: option.split)

text \<open>
  C1, amended: \<open>query2\<close> creates the \<open>TRANSACTED\<close> relationship with \<open>CREATE\<close>. Every
  application of the procedure appends one relationship with the event's transaction
  hash and identifier for each pair of an Account node matching the from address and
  one matching the to address, and there is at least one such pair; so every
  application adds at least one relationship with that key, and applying the same
  event twice adds at least two.
\<close>

theorem C1_transacted_created_each_time:
  "map trx_key (transacted (insert_new_trx_data ev g)) =
     map trx_key (transacted g) @
     map (\<lambda>(f, t). (f, t, ev_transaction ev, nft_identifier ev))
       (pairs (match_account (query0 (to_address ev) (from_address ev) g) (from_address ev))
              (match_account (query0 (to_address ev) (from_address ev) g) (to_address ev))) \<and>
   match_account (query0 (to_address ev) (from_address ev) g) (from_address ev) \<noteq> [] \<and>
   match_account (query0 (to_address ev) (from_address ev) g) (to_address ev) \<noteq> [] \<and>
   length (edges_for (ev_transaction ev) (nft_identifier ev) (insert_new_trx_data ev g)) =
     length (edges_for (ev_transaction ev) (nft_identifier ev) g) +
     length (match_account (query0 (to_address ev) (from_address ev) g) (from_address ev)) *
     length (match_account (query0 (to_address ev) (from_address ev) g) (to_address ev)) \<and>
   length (edges_for (ev_transaction ev) (nft_identifier ev)
             (insert_new_trx_data ev (insert_new_trx_data ev g))) \<ge>
     length (edges_for (ev_transaction ev) (nft_identifier ev) g) + 2"
proof -
  let ?g0 = "query0 (to_address ev) (from_address ev) g"
  have 1: "map trx_key (transacted (insert_new_trx_data ev g)) =
     map trx_key (transacted g) @
     map (\<lambda>(f, t). (f, t, ev_transaction ev, nft_identifier ev))
       (pairs (match_account ?g0 (from_address ev)) (match_account ?g0 (to_address ev)))"
    by (simp add: insert_new_trx_data_def trx_key_query2)
  have 2: "match_account ?g0 (from_address ev) \<noteq> []" "match_account ?g0 (to_address ev) \<noteq> []"
    by (rule query0_matches)+
  have "edges_for (ev_transaction ev) (nft_identifier ev) (query1 ev ?g0) =
      edges_for (ev_transaction ev) (nft_identifier ev) g"
    by (rule edges_for_cong) simp
  then have 3: "length (edges_for (ev_transaction ev) (nft_identifier ev)
                          (insert_new_trx_data ev g)) =
     length (edges_for (ev_transaction ev) (nft_identifier ev) g) +
     length (match_account ?g0 (from_address ev)) * length (match_account ?g0 (to_address ev))"
    by (simp add: insert_new_trx_data_def edges_for_query2)
  have 4: "length (edges_for (ev_transaction ev) (nft_identifier ev)
             (insert_new_trx_data ev (insert_new_trx_data ev g))) \<ge>
     length (edges_for (ev_transaction ev) (nft_identifier ev) g) + 2"
    using insert_adds_edge [of ev g] insert_adds_edge [of ev "insert_new_trx_data ev g"]
    by linarith
  from 1 2 3 4 show ?thesis by blast
qed

section \<open>Projections\<close>


lemma and_then_Return: "m g = (Return x, g') \<Longrightarrow> and_then m f g = f x g'"
  by (simp add: and_then_def)

lemma and_then_Raise: "m g = (Raise e, g') \<Longrightarrow> and_then m f g = (Raise e, g')"
  by (simp add: and_then_def)

lemma and_then_projections:
  assumes "\<And>g. projections (snd (m g)) = projections g"
    and "\<And>x g. projections (snd (f x g)) = projections g"
  shows "projections (snd (and_then m f g)) = projections g"
proof (cases "m g")
  case (Pair r g')
  with assms(1) [of g] have "projections g' = projections g" by simp
  with Pair assms(2) show ?thesis
    by (cases r) (simp_all add: and_then_def)
qed

lemma drop_if_listed_eq:
  "drop_if_listed name g = (Return (), g\<lparr>projections := removeAll name (projections g)\<rparr>)"
  by (simp add: drop_if_listed_def gds_graph_list_def gds_graph_drop_def)

lemma project_fresh:
  "name \<notin> set (projections g) \<Longrightarrow>
   gds_graph_project name g = (Return (), g\<lparr>projections := projections g @ [name]\<rparr>)"
  by (simp add: gds_graph_project_def)

lemma drop_listed:
  "name \<in> set (projections g) \<Longrightarrow>
   gds_graph_drop name g = (Return (), g\<lparr>projections := removeAll name (projections g)\<rparr>)"
  by (simp add: gds_graph_drop_def)

lemma degree_query_store [simp]: "snd (degree_centrality_query en name k g) = g"
  by (simp add: degree_centrality_query_def split: outcome.split)

text \<open>The create-use-drop sequence shared by the two degree operations.\<close>

lemma use_and_drop:
  assumes "name \<notin> set (projections g)"
  shows "and_then (gds_graph_project name)
           (\<lambda>_. and_then (degree_centrality_query en name limit)
             (\<lambda>r. and_then (gds_graph_drop name) (\<lambda>_ g'. (Return (h r), g')))) g =
         (case fst (degree_centrality_query en name limit (g\<lparr>projections := projections g @ [name]\<rparr>)) of
            Raise e \<Rightarrow> (Raise e, g\<lparr>projections := projections g @ [name]\<rparr>)
          | Return r \<Rightarrow> (Return (h r), g))"
proof -
  let ?g1 = "g\<lparr>projections := projections g @ [name]\<rparr>"
  obtain r where r: "degree_centrality_query en name limit ?g1 = (r, ?g1)"
    by (metis degree_query_store prod.collapse)
  have d: "gds_graph_drop name ?g1 = (Return (), g)"
    using assms by (simp add: gds_graph_drop_def)
  show ?thesis
    using assms r d by (cases r) (simp_all add: and_then_def project_fresh)
qed

lemma centrality_result:
  assumes "get_collection_centrality collection = Return c"
  shows "get_most_central_nodes en limit collection g =
         (let g0 = g\<lparr>projections := removeAll ''centralityGraph'' (projections g)\<rparr>;
              g1 = g0\<lparr>projections := projections g0 @ [''centralityGraph'']\<rparr>
          in case fst (degree_centrality_query en ''centralityGraph'' limit g1) of
               Raise e \<Rightarrow> (Raise e, g1)
             | Return r \<Rightarrow> (Return r, g0))"
proof -
  let ?g0 = "g\<lparr>projections := removeAll ''centralityGraph'' (projections g)\<rparr>"
  have fresh: "''centralityGraph'' \<notin> set (projections ?g0)" by simp
  show ?thesis
    unfolding get_most_central_nodes_def assms outcome.case
    by (subst and_then_Return [OF drop_if_listed_eq])
       (simp only: use_and_drop [OF fresh, where h = "\<lambda>r. r"] Let_def)
qed

lemma single_community_result:
  assumes "get_scope scope = Return s" and "get_collection collection = Return c"
    and "filter (in_community c s cid) (nodes g) \<noteq> []"
  shows "get_single_community en cid scope collection limit g =
         (let g0 = g\<lparr>projections := removeAll ''tempGraph'' (projections g)\<rparr>;
              g1 = g0\<lparr>projections := projections g0 @ [''tempGraph'']\<rparr>
          in case fst (degree_centrality_query en ''tempGraph'' limit g1) of
               Raise e \<Rightarrow> (Raise e, g1)
             | Return r \<Rightarrow>
                 (Return (length (filter (in_community c s cid) (nodes g)), r), g0))"
proof -
  let ?g0 = "g\<lparr>projections := removeAll ''tempGraph'' (projections g)\<rparr>"
  have fresh: "''tempGraph'' \<notin> set (projections ?g0)" by simp
  have n: "nodes ?g0 = nodes g" by simp
  show ?thesis
    unfolding get_single_community_def assms outcome.case
    apply (subst and_then_Return [OF drop_if_listed_eq])
    apply (simp only: Let_def n)
    using assms(3) apply (simp only: length_0_conv if_False)
    apply (simp only: use_and_drop [OF fresh, where h = "\<lambda>r. (length (filter (in_community c s cid) (nodes g)), r)"])
    done
qed

lemma single_community_missing:
  assumes "get_scope scope = Return s" and "get_collection collection = Return c"
    and "filter (in_community c s cid) (nodes g) = []"
  shows "get_single_community en cid scope collection limit g =
         (Raise NotExistsException, g\<lparr>projections := removeAll ''tempGraph'' (projections g)\<rparr>)"
  unfolding get_single_community_def assms outcome.case
  by (subst and_then_Return [OF drop_if_listed_eq]) (simp add: assms(3))

lemma degree_query_ok:
  "name \<in> set (projections g) \<Longrightarrow> en name = Return rows \<Longrightarrow> 0 \<le> k \<Longrightarrow>
   fst (degree_centrality_query en name k g) = Return (take (nat k) (sort_key (\<lambda>r. - snd r) rows))"
  by (simp add: degree_centrality_query_def stream_def limit_rows_def)

lemma drop_all_listed:
  "distinct ns \<Longrightarrow> set ns \<subseteq> set (projections g) \<Longrightarrow>
   drop_all ns g = (Return (), g\<lparr>projections := filter (\<lambda>p. p \<notin> set ns) (projections g)\<rparr>)"
proof (induction ns arbitrary: g)
  case Nil
  then show ?case by simp
next
  case (Cons n ns)
  let ?g1 = "g\<lparr>projections := removeAll n (projections g)\<rparr>"
  from Cons.prems have d: "gds_graph_drop n g = (Return (), ?g1)"
    by (simp add: drop_listed)
  from Cons.prems have "distinct ns" "set ns \<subseteq> set (projections ?g1)"
    by auto
  have "filter (\<lambda>p. p \<notin> set ns) (removeAll n xs) = filter (\<lambda>p. p \<notin> set (n # ns)) xs"
    for xs
    by (induction xs) auto
  with Cons.IH [OF \<open>distinct ns\<close> \<open>set ns \<subseteq> set (projections ?g1)\<close>] show ?case
    by (simp add: and_then_def d)
qed

lemma drop_all_list:
  "drop_all (gds_graph_list g) g = (Return (), g\<lparr>projections := []\<rparr>)"
proof -
  have "drop_all (remdups (projections g)) g =
        (Return (), g\<lparr>projections := filter (\<lambda>p. p \<notin> set (remdups (projections g))) (projections g)\<rparr>)"
    by (rule drop_all_listed) simp_all
  then show ?thesis
    by (simp add: gds_graph_list_def)
qed

lemma update_project_graph_result:
  "update_project_graph cn g =
   (Return (), g\<lparr>projections := [cn @ ''_owned'', cn @ ''_trx'', cn @ ''_owned_trx'']\<rparr>)"
  unfolding update_project_graph_def
  by (subst and_then_Return [OF drop_all_list])
     (simp add: and_then_def gds_graph_project_def)

lemma update_project_graph_complete_result:
  "update_project_graph_complete g =
   (Return (), g\<lparr>projections := [''complete_owned'', ''complete_trx'', ''complete_owned_trx'']\<rparr>)"
  unfolding update_project_graph_complete_def
  by (subst and_then_Return [OF drop_all_list])
     (simp add: and_then_def gds_graph_project_def)

lemma update_nodes_com_property_projections:
  "projections (snd (update_nodes_com_property cn cid ms scope g)) = projections g"
proof -
  have "projections (fold (set_property c) us g) = projections g" for c us
    by (induction us arbitrary: g) (simp_all add: set_property_def)
  then show ?thesis
    by (simp add: update_nodes_com_property_def update_node_properties_def Let_def
        split: outcome.split)
qed

lemma update_community_id_info_projections:
  "projections (snd (update_community_id_info ids cn scope g)) = projections g"
  by (simp add: update_community_id_info_def Let_def split: list.split option.split)

lemma for_records_projections:
  "projections (snd (for_records cn scope rs g)) = projections g"
proof (induction rs arbitrary: g)
  case Nil
  then show ?case by simp
next
  case (Cons r rs)
  show ?case
    unfolding for_records.simps
    by (intro and_then_projections update_nodes_com_property_projections Cons.IH) simp
qed

lemma detect_scope_projections:
  "projections (snd (detect_scope en limit cn suffix scope g)) = projections g"
proof (cases "com_query en (cn @ suffix) limit g")
  case (Return rs)
  show ?thesis
    unfolding detect_scope_def Return outcome.case
    by (intro and_then_projections for_records_projections
        update_community_id_info_projections)
next
  case (Raise e)
  then show ?thesis by (simp add: detect_scope_def)
qed

lemma update_community_detection_projections:
  "projections (snd (update_community_detection en limit cn g)) = projections g"
  unfolding update_community_detection_def
  by (intro and_then_projections detect_scope_projections)

lemma run_community_detection_projections:
  "projections (snd (run_community_detection en limit cn g)) =
   [cn @ ''_owned'', cn @ ''_trx'', cn @ ''_owned_trx'']"
proof -
  let ?ps = "[cn @ ''_owned'', cn @ ''_trx'', cn @ ''_owned_trx'']"
  let ?g1 = "g\<lparr>projections := ?ps\<rparr>"
  have p: "(if cn \<noteq> ''complete'' then update_project_graph cn else update_project_graph_complete) g
           = (Return (), ?g1)"
    by (simp add: update_project_graph_result update_project_graph_complete_result)
  have "projections (snd (update_community_detection en limit cn ?g1)) = ?ps"
    by (simp add: update_community_detection_projections)
  then show ?thesis
    unfolding run_community_detection_def and_then_def p
    by (cases "update_community_detection en limit cn ?g1")
       (auto split: outcome.split)
qed

lemma centrality_failure:
  assumes "get_collection_centrality collection = Return c"
    and "fst (get_most_central_nodes en limit collection g) = Raise e"
  shows "''centralityGraph'' \<in> set (projections (snd (get_most_central_nodes en limit collection g)))"
  using assms(2) unfolding centrality_result [OF assms(1)] Let_def
  by (auto split: outcome.splits)

lemma get_scope_raises: "get_scope scope = Raise e \<Longrightarrow> e = NotExistsException"
  by (simp add: get_scope_def split: if_splits)

lemma get_collection_raises: "get_collection collection = Raise e \<Longrightarrow> e = NotExistsException"
  by (simp add: get_collection_def Let_def split: if_splits)

lemma single_community_failure:
  assumes "fst (get_single_community en cid scope collection limit g) = Raise e"
    and "e \<noteq> NotExistsException"
  shows "''tempGraph'' \<in> set (projections (snd (get_single_community en cid scope collection limit g)))"
proof -
  obtain s where s: "get_scope scope = Return s"
    using assms by (cases "get_scope scope") (auto simp: get_single_community_def dest: get_scope_raises)
  obtain c where c: "get_collection collection = Return c"
    using assms s
    by (cases "get_collection collection")
       (auto simp: get_single_community_def dest: get_collection_raises)
  have m: "filter (in_community c s cid) (nodes g) \<noteq> []"
    using assms single_community_missing [OF s c, of cid g en limit] by auto
  show ?thesis
    using assms(1) unfolding single_community_result [OF s c m] Let_def
    by (auto split: outcome.splits)
qed

text \<open>
  C6, as the claim states it, fails. A detection run that completes leaves its
  projections in the catalog, and the centrality operation leaves its projection there
  when the scoring query raises.
\<close>

theorem C6_projection_outlives_operation:
  "fst (run_community_detection louvain5 3 ''boredapeyachtclub'' store_d) = ''Update Completed'' \<and>
   ''boredapeyachtclub_owned'' \<in>
     set (projections (snd (run_community_detection louvain5 3 ''boredapeyachtclub'' store_d))) \<and>
   projections store_d = [] \<and>
   fst (get_most_central_nodes engine_down 10 [''boredapes''] store_d) = Raise ConnectionError \<and>
   ''centralityGraph'' \<in>
     set (projections (snd (get_most_central_nodes engine_down 10 [''boredapes''] store_d)))"
  by code_simp

text \<open>
  C6, amended. The centrality operation and the single-community operation drop a
  listed projection of their name before they create it, so a stale projection does
  not make them fail, and on success they leave the catalog without their projection;
  when they raise after the creation, the projection stays in the catalog. A detection
  run drops every listed projection, creates its three projections and never drops
  them: they are the catalog when the run returns, whatever its outcome.
\<close>

theorem C6_projection_lifecycle:
  "(get_collection_centrality collectionA = Return cA \<longrightarrow> enA ''centralityGraph'' = Return rowsA \<longrightarrow>
      0 \<le> limitA \<longrightarrow>
      get_most_central_nodes enA limitA collectionA gA =
        (Return (take (nat limitA) (sort_key (\<lambda>r. - snd r) rowsA)),
         gA\<lparr>projections := removeAll ''centralityGraph'' (projections gA)\<rparr>)) \<and>
   (get_collection_centrality collectionB = Return cB \<longrightarrow>
      fst (get_most_central_nodes enB limitB collectionB gB) = Raise eB \<longrightarrow>
      ''centralityGraph'' \<in>
        set (projections (snd (get_most_central_nodes enB limitB collectionB gB)))) \<and>
   (get_scope scopeC = Return sC \<longrightarrow> get_collection collectionC = Return cC \<longrightarrow>
      filter (in_community cC sC cidC) (nodes gC) \<noteq> [] \<longrightarrow>
      enC ''tempGraph'' = Return rowsC \<longrightarrow> 0 \<le> limitC \<longrightarrow>
      get_single_community enC cidC scopeC collectionC limitC gC =
        (Return (length (filter (in_community cC sC cidC) (nodes gC)),
                 take (nat limitC) (sort_key (\<lambda>r. - snd r) rowsC)),
         gC\<lparr>projections := removeAll ''tempGraph'' (projections gC)\<rparr>)) \<and>
   (fst (get_single_community enD cidD scopeD collectionD limitD gD) = Raise eD \<longrightarrow>
      eD \<noteq> NotExistsException \<longrightarrow>
      ''tempGraph'' \<in>
        set (projections (snd (get_single_community enD cidD scopeD collectionD limitD gD)))) \<and>
   projections (snd (run_community_detection enE limitE cnE gE)) =
     [cnE @ ''_owned'', cnE @ ''_trx'', cnE @ ''_owned_trx'']"
proof (intro conjI impI)
  assume "get_collection_centrality collectionA = Return cA"
    and "enA ''centralityGraph'' = Return rowsA" and "0 \<le> limitA"
  then show "get_most_central_nodes enA limitA collectionA gA =
      (Return (take (nat limitA) (sort_key (\<lambda>r. - snd r) rowsA)),
       gA\<lparr>projections := removeAll ''centralityGraph'' (projections gA)\<rparr>)"
    by (simp add: centrality_result degree_query_ok)
next
  assume "get_collection_centrality collectionB = Return cB"
    and "fst (get_most_central_nodes enB limitB collectionB gB) = Raise eB"
  then show "''centralityGraph'' \<in>
      set (projections (snd (get_most_central_nodes enB limitB collectionB gB)))"
    by (rule centrality_failure)
next
  assume "get_scope scopeC = Return sC" and "get_collection collectionC = Return cC"
    and "filter (in_community cC sC cidC) (nodes gC) \<noteq> []"
    and "enC ''tempGraph'' = Return rowsC" and "0 \<le> limitC"
  then show "get_single_community enC cidC scopeC collectionC limitC gC =
      (Return (length (filter (in_community cC sC cidC) (nodes gC)),
               take (nat limitC) (sort_key (\<lambda>r. - snd r) rowsC)),
       gC\<lparr>projections := removeAll ''tempGraph'' (projections gC)\<rparr>)"
    by (simp add: single_community_result degree_query_ok)
next
  assume "fst (get_single_community enD cidD scopeD collectionD limitD gD) = Raise eD"
    and "eD \<noteq> NotExistsException"
  then show "''tempGraph'' \<in>
      set (projections (snd (get_single_community enD cidD scopeD collectionD limitD gD)))"
    by (rule single_community_failure)
next
  show "projections (snd (run_community_detection enE limitE cnE gE)) =
      [cnE @ ''_owned'', cnE @ ''_trx'', cnE @ ''_owned_trx'']"
    by (rule run_community_detection_projections)
qed

theorem C6_projection_lifecycle_witness:
  "get_collection_centrality [''boredapes''] = Return ''boredapeyachtclub'' \<and>
   louvain5 ''centralityGraph'' =
     Return [(1, 10), (2, 11), (3, 11), (4, 12), (5, 12), (6, 12), (7, 13), (8, 14), (9, 14)] \<and>
   get_most_central_nodes louvain5 2 [''boredapes''] (store_stale ''centralityGraph'') =
     (Return [(8, 14), (9, 14)], store_d) \<and>
   fst (get_most_central_nodes engine_down 10 [''boredapes''] store_d) = Raise ConnectionError \<and>
   ''centralityGraph'' \<in>
     set (projections (snd (get_most_central_nodes engine_down 10 [''boredapes''] store_d))) \<and>
   get_scope ''all'' = Return 2 \<and> get_collection [''boredapes''] = Return ''boredapeyachtclub'' \<and>
   filter (in_community ''boredapeyachtclub'' 2 3) (nodes (store_stale ''tempGraph'')) \<noteq> [] \<and>
   get_single_community louvain5 3 ''all'' [''boredapes''] 2 (store_stale ''tempGraph'') =
     (Return (9, [(8, 14), (9, 14)]), store_d) \<and>
   fst (get_single_community engine_down 3 ''all'' [''boredapes''] 2 store_d) =
     Raise ConnectionError \<and>
   ''tempGraph'' \<in>
     set (projections (snd (get_single_community engine_down 3 ''all'' [''boredapes''] 2 store_d)))"
proof -
  let ?rows = "[(1, 10), (2, 11), (3, 11), (4, 12), (5, 12), (6, 12), (7, 13), (8, 14), (9, 14)]
                 :: (nat \<times> int) list"
  note w = C6_projection_lifecycle
    [where collectionA = "[''boredapes'']" and cA = "''boredapeyachtclub''" and enA = louvain5
       and rowsA = ?rows and limitA = 2 and gA = "store_stale ''centralityGraph''"
       and collectionB = "[''boredapes'']" and cB = "''boredapeyachtclub''"
       and enB = engine_down and limitB = 10 and gB = store_d and eB = ConnectionError
       and scopeC = "''all''" and sC = 2 and collectionC = "[''boredapes'']"
       and cC = "''boredapeyachtclub''" and cidC = 3 and gC = "store_stale ''tempGraph''"
       and enC = louvain5 and rowsC = ?rows and limitC = 2
       and enD = engine_down and cidD = 3 and scopeD = "''all''"
       and collectionD = "[''boredapes'']" and limitD = 2 and gD = store_d
       and eD = ConnectionError]
  have h1: "get_collection_centrality [''boredapes''] = Return ''boredapeyachtclub''"
    by code_simp
  have h2: "louvain5 name = Return ?rows" for name
    by (simp add: louvain5_def)
  have h3: "fst (get_most_central_nodes engine_down 10 [''boredapes''] store_d) =
      Raise ConnectionError"
    by code_simp
  have h4: "get_scope ''all'' = Return 2" by code_simp
  have h5: "get_collection [''boredapes''] = Return ''boredapeyachtclub''" by code_simp
  have h6: "filter (in_community ''boredapeyachtclub'' 2 3) (nodes (store_stale ''tempGraph'')) \<noteq> []"
    by code_simp
  have h7: "fst (get_single_community engine_down 3 ''all'' [''boredapes''] 2 store_d) =
      Raise ConnectionError"
    by code_simp
  have s: "take (nat 2) (sort_key (\<lambda>r. - snd r) ?rows) = [(8, 14), (9, 14)]"
    by code_simp
  have n: "length (filter (in_community ''boredapeyachtclub'' 2 3) (nodes (store_stale ''tempGraph''))) = 9"
    by code_simp
  have d: "(store_stale name)\<lparr>projections := removeAll name (projections (store_stale name))\<rparr> = store_d" for name
    by (simp add: store_stale_def store_d_def)
  from w h1 h2 h3 h4 h5 h6 h7 show ?thesis
    by (simp add: s n d)
qed

section \<open>Not-found conditions\<close>

lemma get_scope_unknown:
  "get_scope scope = Raise NotExistsException \<longleftrightarrow>
   upper scope \<noteq> ''OWNERSHIP'' \<and> upper scope \<noteq> ''TRANSACTION'' \<and> upper scope \<noteq> ''ALL''"
  by (simp add: get_scope_def)

lemma singleton_conv: "length xs = 1 \<and> xs ! 0 = x \<longleftrightarrow> xs = [x]"
  by (cases xs) auto

lemma get_collection_unknown:
  "get_collection collection = Raise NotExistsException \<longleftrightarrow>
   map upper collection \<noteq> [''BOREDAPES''] \<and> map upper collection \<noteq> [''DEGODS''] \<and>
   \<not> (length collection = 2 \<and> ''BOREDAPES'' \<in> set (map upper collection) \<and>
      ''DEGODS'' \<in> set (map upper collection))"
  unfolding get_collection_def Let_def singleton_conv
  by (auto simp del: set_map)

lemma get_collection_centrality_unknown:
  "get_collection_centrality collection = Raise NotExistsException \<longleftrightarrow>
   map upper collection \<noteq> [''BOREDAPES''] \<and> map upper collection \<noteq> [''DEGODS''] \<and>
   \<not> (length collection = 2 \<and> ''BOREDAPES'' \<in> set (map upper collection) \<and>
      ''DEGODS'' \<in> set (map upper collection))"
  unfolding get_collection_centrality_def Let_def singleton_conv
  by (auto simp del: set_map)

lemma run_community_detection_texts:
  "fst (run_community_detection en limit cn g) = ''Update Completed'' \<or>
   fst (run_community_detection en limit cn g) = ''Something went wrong QAQ''"
  unfolding run_community_detection_def
  by (simp split: prod.split outcome.split)

text \<open>
  C10, as the claim states it, fails. For a collection without \<open>Update_Info\<close> node the
  refresh frequency is the default of 86000 seconds. Other operations that are given
  the name of an unknown collection report no does-not-exist condition either:
  \<open>get_identifier_id_list\<close> returns the empty list, and a detection run returns its
  text for any failure.
\<close>

theorem C10_frequency_default:
  "update_infos store0 = [] \<and> get_update_frequency ''cryptopunks'' store0 = Some 86000 \<and>
   get_identifier_id_list ''cryptopunks'' store0 = [] \<and>
   fst (run_community_detection louvain5 3 ''cryptopunks'' store_d) = ''Something went wrong QAQ''"
  by code_simp

text \<open>
  C10, amended. The operations that take the scope and collection labels of the
  endpoints report an unknown label as \<open>NotExistsException\<close>: \<open>get_scope\<close> and the two
  \<open>get_collection\<close> for every ASCII label that is none of theirs in upper case, and with
  them \<open>get_single_community\<close> and \<open>get_most_central_nodes\<close>, which leave the store as it
  is; \<open>get_single_community\<close> reports a community id that no node carries in the same
  way. The operations that take the name of a collection do not: for a collection
  without \<open>Update_Info\<close> node \<open>get_update_frequency\<close> returns the default of 86000
  seconds, for a collection without NFT \<open>get_identifier_id_list\<close> returns the empty
  list, and a detection run returns one of its two texts.
\<close>

theorem C10_not_found_conditions:
  "(ascii scopeA \<longrightarrow>
      upper scopeA \<noteq> ''OWNERSHIP'' \<longrightarrow> upper scopeA \<noteq> ''TRANSACTION'' \<longrightarrow> upper scopeA \<noteq> ''ALL'' \<longrightarrow>
      get_scope scopeA = Raise NotExistsException \<and>
      get_single_community enA cidA scopeA collectionA limitA gA = (Raise NotExistsException, gA)) \<and>
   (list_all ascii collectionB \<longrightarrow>
      map upper collectionB \<noteq> [''BOREDAPES''] \<longrightarrow> map upper collectionB \<noteq> [''DEGODS''] \<longrightarrow>
      \<not> (length collectionB = 2 \<and> ''BOREDAPES'' \<in> set (map upper collectionB) \<and>
         ''DEGODS'' \<in> set (map upper collectionB)) \<longrightarrow>
      get_collection collectionB = Raise NotExistsException \<and>
      get_collection_centrality collectionB = Raise NotExistsException \<and>
      get_most_central_nodes enB limitB collectionB gB = (Raise NotExistsException, gB) \<and>
      (get_scope scopeB = Return sB \<longrightarrow>
         get_single_community enB cidB scopeB collectionB limitB gB =
           (Raise NotExistsException, gB))) \<and>
   (get_scope scopeC = Return sC \<longrightarrow> get_collection collectionC = Return cC \<longrightarrow>
      filter (in_community cC sC cidC) (nodes gC) = [] \<longrightarrow>
      fst (get_single_community enC cidC scopeC collectionC limitC gC) =
        Raise NotExistsException) \<and>
   (filter (\<lambda>u. ui_collection_name u = get_processed_collection_name cnD) (update_infos gD) = [] \<longrightarrow>
      get_update_frequency cnD gD = Some 86000) \<and>
   (filter (\<lambda>n. label n = NFT \<and> collection_name n = get_processed_collection_name cnE)
      (nodes gE) = [] \<longrightarrow>
      get_identifier_id_list cnE gE = []) \<and>
   (fst (run_community_detection enF limitF cnF gF) = ''Update Completed'' \<or>
    fst (run_community_detection enF limitF cnF gF) = ''Something went wrong QAQ'')"
proof (intro conjI impI)
  assume "upper scopeA \<noteq> ''OWNERSHIP''" "upper scopeA \<noteq> ''TRANSACTION''" "upper scopeA \<noteq> ''ALL''"
  then have a: "get_scope scopeA = Raise NotExistsException"
    by (simp add: get_scope_unknown)
  then show "get_scope scopeA = Raise NotExistsException" .
  from a show "get_single_community enA cidA scopeA collectionA limitA gA =
      (Raise NotExistsException, gA)"
    by (simp add: get_single_community_def)
next
  assume "map upper collectionB \<noteq> [''BOREDAPES'']" "map upper collectionB \<noteq> [''DEGODS'']"
    "\<not> (length collectionB = 2 \<and> ''BOREDAPES'' \<in> set (map upper collectionB) \<and>
        ''DEGODS'' \<in> set (map upper collectionB))"
  then have b: "get_collection collectionB = Raise NotExistsException"
    and c: "get_collection_centrality collectionB = Raise NotExistsException"
    by (simp_all only: get_collection_unknown get_collection_centrality_unknown simp_thms)
  from b show "get_collection collectionB = Raise NotExistsException" .
  from c show "get_collection_centrality collectionB = Raise NotExistsException" .
  from c show "get_most_central_nodes enB limitB collectionB gB = (Raise NotExistsException, gB)"
    by (simp add: get_most_central_nodes_def)
  show "get_single_community enB cidB scopeB collectionB limitB gB =
      (Raise NotExistsException, gB)" if "get_scope scopeB = Return sB"
    using that b by (simp add: get_single_community_def)
next
  assume "get_scope scopeC = Return sC" "get_collection collectionC = Return cC"
    "filter (in_community cC sC cidC) (nodes gC) = []"
  then show "fst (get_single_community enC cidC scopeC collectionC limitC gC) =
      Raise NotExistsException"
    by (simp add: single_community_missing)
next
  assume "filter (\<lambda>u. ui_collection_name u = get_processed_collection_name cnD) (update_infos gD) = []"
  then show "get_update_frequency cnD gD = Some 86000"
    by (simp add: get_update_frequency_def)
next
  assume "filter (\<lambda>n. label n = NFT \<and> collection_name n = get_processed_collection_name cnE)
      (nodes gE) = []"
  then show "get_identifier_id_list cnE gE = []"
    by (simp add: get_identifier_id_list_def)
next
  show "fst (run_community_detection enF limitF cnF gF) = ''Update Completed'' \<or>
    fst (run_community_detection enF limitF cnF gF) = ''Something went wrong QAQ''"
    by (rule run_community_detection_texts)
qed

theorem C10_not_found_conditions_witness:
  "ascii ''owner'' \<and>
   upper ''owner'' \<noteq> ''OWNERSHIP'' \<and> upper ''owner'' \<noteq> ''TRANSACTION'' \<and> upper ''owner'' \<noteq> ''ALL'' \<and>
   get_scope ''owner'' = Raise NotExistsException \<and>
   get_single_community louvain5 3 ''owner'' [''boredapes''] 5 store_d =
     (Raise NotExistsException, store_d) \<and>
   list_all ascii [''cryptopunks''] \<and>
   map upper [''cryptopunks''] \<noteq> [''BOREDAPES''] \<and> map upper [''cryptopunks''] \<noteq> [''DEGODS''] \<and>
   get_collection [''cryptopunks''] = Raise NotExistsException \<and>
   get_collection_centrality [''cryptopunks''] = Raise NotExistsException \<and>
   get_most_central_nodes louvain5 5 [''cryptopunks''] store_d = (Raise NotExistsException, store_d) \<and>
   get_scope ''all'' = Return 2 \<and>
   get_single_community louvain5 3 ''all'' [''cryptopunks''] 5 store_d =
     (Raise NotExistsException, store_d) \<and>
   get_collection [''boredapes''] = Return ''boredapeyachtclub'' \<and>
   filter (in_community ''boredapeyachtclub'' 2 77) (nodes store_d) = [] \<and>
   fst (get_single_community louvain5 77 ''all'' [''boredapes''] 5 store_d) =
     Raise NotExistsException \<and>
   filter (\<lambda>u. ui_collection_name u = get_processed_collection_name ''cryptopunks'')
     (update_infos store0) = [] \<and>
   get_update_frequency ''cryptopunks'' store0 = Some 86000 \<and>
   filter (\<lambda>n. label n = NFT \<and> collection_name n = get_processed_collection_name ''cryptopunks'')
     (nodes store0) = [] \<and>
   get_identifier_id_list ''cryptopunks'' store0 = []"
proof -
  have h0: "ascii ''owner''" "list_all ascii [''cryptopunks'']"
    by code_simp+
  have h1: "upper ''owner'' \<noteq> ''OWNERSHIP''" "upper ''owner'' \<noteq> ''TRANSACTION''"
    "upper ''owner'' \<noteq> ''ALL''"
    by code_simp+
  have h2: "map upper [''cryptopunks''] \<noteq> [''BOREDAPES'']"
    "map upper [''cryptopunks''] \<noteq> [''DEGODS'']"
    "\<not> (length [''cryptopunks''] = 2 \<and> ''BOREDAPES'' \<in> set (map upper [''cryptopunks'']) \<and>
        ''DEGODS'' \<in> set (map upper [''cryptopunks'']))"
    by code_simp+
  have h3: "get_scope ''all'' = Return 2" "get_collection [''boredapes''] = Return ''boredapeyachtclub''"
    "filter (in_community ''boredapeyachtclub'' 2 77) (nodes store_d) = []"
    by code_simp+
  have h4: "filter (\<lambda>u. ui_collection_name u = get_processed_collection_name ''cryptopunks'')
     (update_infos store0) = []"
    by code_simp
  have h5: "filter (\<lambda>n. label n = NFT \<and>
                 collection_name n = get_processed_collection_name ''cryptopunks'')
     (nodes store0) = []"
    by code_simp
  from C10_not_found_conditions
    [where scopeA = "''owner''" and enA = louvain5 and cidA = 3 and collectionA = "[''boredapes'']"
       and limitA = 5 and gA = store_d
       and collectionB = "[''cryptopunks'']" and enB = louvain5 and limitB = 5 and gB = store_d
       and scopeB = "''all''" and sB = 2 and cidB = 3
       and scopeC = "''all''" and sC = 2 and collectionC = "[''boredapes'']"
       and cC = "''boredapeyachtclub''" and cidC = 77 and gC = store_d and enC = louvain5
       and limitC = 5 and cnD = "''cryptopunks''" and gD = store0
       and cnE = "''cryptopunks''" and gE = store0]
    h0 h1 h2 h3 h4 h5
  show ?thesis by blast
qed

section \<open>The ingestion run\<close>

text \<open>
  When the first page of a due entity has events, the run stores them and returns: it
  requests no further page, leaves the entity's \<open>updated_at\<close> as it was, and does not
  visit the remaining entities.
\<close>

lemma first_page_break:
  assumes "2 * 86400 \<le> now - last_updated"
    and "fd \<lparr>rq_identifier = ident, rq_after = last_updated, rq_till = now, rq_cursor = None\<rparr> =
         Reply result status_code"
    and "asset_events result = Some evs" and "evs \<noteq> []"
  shows "for_ids fd cn now ((ident, Some last_updated) # rest) l g =
         Some (Return (), insert_all evs g)"
  using assms by (simp add: first_page_def)

text \<open>
  C3: the feed \<open>feed_pages\<close> has a second page for NFT 7 behind the cursor \<open>c1\<close> and a
  page for NFT 8, and both NFTs are due. The run stores the event of the first page of
  NFT 7 only (\<open>0xh1\<close>) and returns; the events \<open>0xh3\<close> and \<open>0xh4\<close> are never fetched.
\<close>

theorem C3_break_after_first_page:
  "get_identifier_id_list ''boredapeyachtclub'' store0 = [(''7'', Some 0), (''8'', Some 0)] \<and>
   observe (run_feed feed_pages) = Some (Return (), [''0xh1''], [Some 0, Some 0])"
  by code_simp

text \<open>
  C4: with \<open>feed_fail8\<close> the walk of NFT 7 succeeds and the feed raises for NFT 8; the run
  sets \<open>updated_at\<close> of NFT 8 to the time of the run all the same, since \<open>status_code\<close>
  still holds the 200 of NFT 7. With \<open>feed_fail7\<close> the feed raises for the first entity;
  \<open>result\<close> is not bound then, the \<open>while\<close> condition raises \<open>UnboundLocalError\<close> outside
  of any \<open>try\<close>, and NFT 8 is not visited.
\<close>

theorem C4_feed_error_not_isolated:
  "observe (run_feed feed_fail8) = Some (Return (), [], [Some 200000, Some 200000]) \<and>
   observe (run_feed feed_fail7) = Some (Raise UnboundLocalError, [], [Some 0, Some 0])"
  by code_simp

section \<open>Account nodes\<close>

text \<open>
  C5: \<open>store_b\<close> has one Account node with the address \<open>0xb\<close>, whose membership array a
  detection run has changed. The event \<open>ev_ab\<close>, which names \<open>0xb\<close> as its to address,
  creates a second Account node with that address.
\<close>

theorem C5_second_account_node:
  "length (match_account store_b ''0xb'') = 1 \<and>
   length (match_account (insert_new_trx_data ev_ab store_b) ''0xb'') = 2 \<and>
   length (match_account (query0 ''0xb'' ''0xa'' store_b) ''0xb'') = 2"
  by code_simp

text \<open>
  Such a store arises from the code itself: the event \<open>ev_ab\<close> creates the Account of
  \<open>0xb\<close>, a detection run writes its community, and the next event that names \<open>0xb\<close>
  creates the second node.
\<close>

lemma second_account_after_detection:
  "map address (nodes (insert_new_trx_data ev_ab store_ci)) = [[], [], ''0xb'', ''0xa''] \<and>
   fst (run_community_detection louvain_ab 100 ''boredapeyachtclub''
          (insert_new_trx_data ev_ab store_ci)) = ''Update Completed'' \<and>
   length (match_account
             (insert_new_trx_data ev_bc
                (snd (run_community_detection louvain_ab 100 ''boredapeyachtclub''
                        (insert_new_trx_data ev_ab store_ci)))) ''0xb'') = 2"
  by code_simp

section \<open>The community query\<close>

lemma group_communities_fst: "map fst (group_communities rows) = remdups (map snd rows)"
  by (simp add: group_communities_def o_def)

lemma group_communities_size:
  "r \<in> set (group_communities rows) \<Longrightarrow> length (snd r) = community_size rows (fst r)"
  by (auto simp: group_communities_def community_size_def)

lemma group_communities_members:
  "r \<in> set (group_communities rows) \<Longrightarrow> nid \<in> set (snd r) \<longleftrightarrow> (nid, fst r) \<in> set rows"
  by (force simp: group_communities_def)

lemma sorted_wrt_take_rest:
  assumes "sorted_wrt P xs" and "x \<in> set (take k xs)" and "y \<in> set xs"
    and "y \<notin> set (take k xs)"
  shows "P x y"
proof -
  from assms(3,4) have y: "y \<in> set (drop k xs)"
    by (metis Un_iff append_take_drop_id set_append)
  from assms(1) have "sorted_wrt P (take k xs @ drop k xs)"
    by simp
  then have "\<forall>a\<in>set (take k xs). \<forall>b\<in>set (drop k xs). P a b"
    unfolding sorted_wrt_append by blast
  with assms(2) y show ?thesis by blast
qed

text \<open>The ordered groups, and any prefix of them, meet the specification.\<close>

lemma ordered_groups:
  fixes rows :: "(nat \<times> int) list"
  defines "ordered \<equiv> sort_key (\<lambda>r. - int (length (snd r))) (group_communities rows)"
  shows "distinct (map fst ordered)"
    and "set (map fst ordered) = snd ` set rows"
    and "sorted_wrt (\<lambda>a b. length (snd b) \<le> length (snd a)) ordered"
    and "length ordered = card (snd ` set rows)"
    and "r \<in> set ordered \<Longrightarrow> length (snd r) = community_size rows (fst r)"
proof -
  let ?f = "\<lambda>r :: int \<times> nat list. - int (length (snd r))"
  let ?gs = "group_communities rows"
  have d: "distinct (map fst ?gs)"
    by (simp add: group_communities_fst)
  then show "distinct (map fst ordered)"
    unfolding ordered_def by (simp add: distinct_map)
  show "set (map fst ordered) = snd ` set rows"
    unfolding ordered_def using group_communities_fst [of rows]
    by (metis image_set set_map set_remdups set_sort)
  have "sorted (map ?f ordered)"
    unfolding ordered_def by simp
  then show "sorted_wrt (\<lambda>a b. length (snd b) \<le> length (snd a)) ordered"
    by (simp add: sorted_map sorted_wrt_iff_nth_less)
  have "length ordered = length (remdups (map snd rows))"
    unfolding ordered_def using group_communities_fst [of rows]
    by (metis length_map length_sort)
  then show "length ordered = card (snd ` set rows)"
    by (simp add: length_remdups_card_conv)
  show "length (snd r) = community_size rows (fst r)" if "r \<in> set ordered"
    using that unfolding ordered_def by (simp add: group_communities_size)
qed

lemma prefix_top_k:
  fixes rows :: "(nat \<times> int) list"
  defines "ordered \<equiv> sort_key (\<lambda>r. - int (length (snd r))) (group_communities rows)"
  assumes k: "k = (if limit = 0 then length ordered else nat limit)"
  shows "top_k_by_size limit rows (map fst (take k ordered))"
proof -
  note og = ordered_groups [where rows = rows, folded ordered_def]
  let ?ids = "map fst (take k ordered)"
  have sz: "length (snd r) = community_size rows (fst r)" if "r \<in> set (take k ordered)" for r
    using that og(5) by (meson in_set_takeD)
  have 1: "distinct ?ids"
    using distinct_take [OF og(1), of k] by (simp add: take_map)
  have 2: "set ?ids \<subseteq> snd ` set rows"
    using og(2) set_take_subset [of k "map fst ordered"] by (simp add: take_map)
  have "sorted_wrt (\<lambda>a b. length (snd b) \<le> length (snd a)) (take k ordered)"
    using og(3) by (rule sorted_wrt_take)
  then have "sorted_wrt (\<lambda>a b. community_size rows (fst b) \<le> community_size rows (fst a))
               (take k ordered)"
    by (rule sorted_wrt_mono_rel [rotated]) (simp add: sz)
  then have 3: "sorted_wrt (\<lambda>a b. community_size rows b \<le> community_size rows a) ?ids"
    by (simp add: sorted_wrt_map)
  have 4: "community_size rows c \<le> community_size rows d"
    if c: "c \<in> snd ` set rows" "c \<notin> set ?ids" and d: "d \<in> set ?ids" for c d
  proof -
    from d obtain x where x: "x \<in> set (take k ordered)" "d = fst x" by auto
    from c(1) og(2) have "c \<in> fst ` set ordered" by simp
    then obtain y where y: "y \<in> set ordered" "c = fst y" by blast
    with c(2) have "y \<notin> set (take k ordered)" by auto
    with og(3) x(1) y(1) have "length (snd y) \<le> length (snd x)"
      by (rule sorted_wrt_take_rest)
    with x y sz [OF x(1)] og(5) [OF y(1)] show ?thesis by simp
  qed
  have 5: "length ?ids =
      (if limit = 0 then card (snd ` set rows) else min (nat limit) (card (snd ` set rows)))"
    using og(4) k by (simp add: min.commute)
  from 1 2 3 4 5 show ?thesis
    unfolding top_k_by_size_def by blast
qed

lemma com_query_top_k:
  assumes "com_query en name limit g = Return rs" and "en name = Return rows"
  shows "top_k_by_size limit rows (map fst rs)"
proof -
  let ?ordered = "sort_key (\<lambda>r. - int (length (snd r))) (group_communities rows)"
  from assms have "stream en name g = Return rows"
    by (auto simp: com_query_def stream_def split: if_splits)
  with assms(1) have "rs = take (if limit = 0 then length ?ordered else nat limit) ?ordered"
    by (auto simp: com_query_def Let_def limit_rows_def split: if_splits)
  then show ?thesis
    using prefix_top_k [where limit = limit and rows = rows] by simp
qed

lemma com_query_Return_engine:
  "com_query en name limit g = Return rs \<Longrightarrow> \<exists>rows. en name = Return rows"
  by (cases "en name") (auto simp: com_query_def stream_def split: if_splits)

section \<open>The summary lists of a detection run\<close>

lemma and_then_ReturnE:
  assumes "and_then m f g = (Return y, g')"
  obtains x g1 where "m g = (Return x, g1)" and "f x g1 = (Return y, g')"
proof (cases "m g")
  case (Pair r g1)
  with assms show ?thesis
    by (cases r) (auto simp: and_then_def intro: that)
qed

lemma fold_set_property_infos:
  "community_infos (fold (set_property c) us g) = community_infos g"
  by (induction us arbitrary: g) (simp_all add: set_property_def)

lemma update_nodes_com_property_infos:
  "community_infos (snd (update_nodes_com_property cn cid ms scope g)) = community_infos g"
  by (simp add: update_nodes_com_property_def update_node_properties_def Let_def
      fold_set_property_infos split: outcome.split)

lemma for_records_ids:
  "for_records cn scope rs g = (Return ids, g') \<Longrightarrow>
   ids = map fst rs \<and> community_infos g' = community_infos g"
proof (induction rs arbitrary: g ids g')
  case Nil
  then show ?case by simp
next
  case (Cons r rs)
  from Cons.prems obtain u g1 where
    1: "update_nodes_com_property cn (fst r) (snd r) scope g = (Return u, g1)" and
    2: "and_then (for_records cn scope rs) (\<lambda>community_id g'. (Return (fst r # community_id), g')) g1
        = (Return ids, g')"
    unfolding for_records.simps by (rule and_then_ReturnE)
  from 2 obtain ids' g2 where
    3: "for_records cn scope rs g1 = (Return ids', g2)" and
    4: "(Return (fst r # ids'), g2) = (Return ids, g')"
    by (rule and_then_ReturnE)
  from 1 have "community_infos g1 = community_infos g"
    using update_nodes_com_property_infos [of cn "fst r" "snd r" scope g] by simp
  with Cons.IH [OF 3] 4 show ?case by auto
qed

lemma update_community_id_info_summary:
  assumes "update_community_id_info ids cn scope g = (Return (), g')"
  shows "community_summary (get_processed_collection_name cn) scope g' = Some ids"
    and "j \<noteq> scope \<Longrightarrow>
         community_summary (get_processed_collection_name cn) j g' =
         community_summary (get_processed_collection_name cn) j g"
  using assms
  by (auto simp: update_community_id_info_def community_summary_def Let_def
      split: list.splits option.splits if_splits)

lemma detect_scope_summary:
  assumes "detect_scope en limit cn suffix scope g = (Return (), g')"
  obtains rows ids where "en (cn @ suffix) = Return rows" and "top_k_by_size limit rows ids"
    and "community_summary (get_processed_collection_name cn) scope g' = Some ids"
    and "\<And>j. j \<noteq> scope \<Longrightarrow>
           community_summary (get_processed_collection_name cn) j g' =
           community_summary (get_processed_collection_name cn) j g"
proof -
  from assms obtain rs where rs: "com_query en (cn @ suffix) limit g = Return rs"
    by (cases "com_query en (cn @ suffix) limit g") (auto simp: detect_scope_def)
  then obtain rows where rows: "en (cn @ suffix) = Return rows"
    using com_query_Return_engine by blast
  from assms rs obtain ids g1 where
    1: "for_records cn scope rs g = (Return ids, g1)" and
    2: "update_community_id_info ids cn scope g1 = (Return (), g')"
    unfolding detect_scope_def by (auto elim: and_then_ReturnE)
  from for_records_ids [OF 1] have ids: "ids = map fst rs"
    and infos: "community_infos g1 = community_infos g"
    by simp_all
  have same: "community_summary c j g1 = community_summary c j g" for c j
    by (simp add: community_summary_def infos)
  show ?thesis
  proof (rule that [OF rows])
    show "top_k_by_size limit rows ids"
      unfolding ids using rs rows by (rule com_query_top_k)
    show "community_summary (get_processed_collection_name cn) scope g' = Some ids"
      using 2 by (rule update_community_id_info_summary)
    show "community_summary (get_processed_collection_name cn) j g' =
          community_summary (get_processed_collection_name cn) j g" if "j \<noteq> scope" for j
      using update_community_id_info_summary(2) [OF 2 that] same by simp
  qed
qed

text \<open>
  C9: when a detection run completes, the summary list of each scope holds the ids of
  the \<open>limit\<close> largest communities that the engine has streamed for the projection of
  that scope, in the order of descending size, and all of them when \<open>limit = 0\<close>.
\<close>

theorem C9_summary_top_k:
  assumes "update_community_detection en limit cn g = (Return (), g')"
  shows "\<exists>rows0 rows1 rows2 ids0 ids1 ids2.
           en (cn @ ''_owned'') = Return rows0 \<and> en (cn @ ''_trx'') = Return rows1 \<and>
           en (cn @ ''_owned_trx'') = Return rows2 \<and>
           community_summary (get_processed_collection_name cn) 0 g' = Some ids0 \<and>
           community_summary (get_processed_collection_name cn) 1 g' = Some ids1 \<and>
           community_summary (get_processed_collection_name cn) 2 g' = Some ids2 \<and>
           top_k_by_size limit rows0 ids0 \<and> top_k_by_size limit rows1 ids1 \<and>
           top_k_by_size limit rows2 ids2"
proof -
  let ?c = "get_processed_collection_name cn"
  from assms obtain u1 g1 where
    a: "detect_scope en limit cn ''_owned'' 0 g = (Return u1, g1)" and
    r1: "and_then (detect_scope en limit cn ''_trx'' 1)
           (\<lambda>_. detect_scope en limit cn ''_owned_trx'' 2) g1 = (Return (), g')"
    unfolding update_community_detection_def by (rule and_then_ReturnE)
  from r1 obtain u2 g2 where
    b: "detect_scope en limit cn ''_trx'' 1 g1 = (Return u2, g2)" and
    c: "detect_scope en limit cn ''_owned_trx'' 2 g2 = (Return (), g')"
    by (rule and_then_ReturnE)
  from a obtain rows0 ids0 where
    a1: "en (cn @ ''_owned'') = Return rows0" "top_k_by_size limit rows0 ids0"
        "community_summary ?c 0 g1 = Some ids0"
    by (auto elim: detect_scope_summary)
  from b obtain rows1 ids1 where
    b1: "en (cn @ ''_trx'') = Return rows1" "top_k_by_size limit rows1 ids1"
        "community_summary ?c 1 g2 = Some ids1"
        "\<And>j. j \<noteq> 1 \<Longrightarrow> community_summary ?c j g2 = community_summary ?c j g1"
    by (auto elim: detect_scope_summary)
  from c obtain rows2 ids2 where
    c1: "en (cn @ ''_owned_trx'') = Return rows2" "top_k_by_size limit rows2 ids2"
        "community_summary ?c 2 g' = Some ids2"
        "\<And>j. j \<noteq> 2 \<Longrightarrow> community_summary ?c j g' = community_summary ?c j g2"
    by (auto elim: detect_scope_summary)
  have "community_summary ?c 0 g' = Some ids0"
    using a1(3) b1(4) [of 0] c1(4) [of 0] by simp
  moreover have "community_summary ?c 1 g' = Some ids1"
    using b1(3) c1(4) [of 1] by simp
  ultimately show ?thesis
    using a1(1,2) b1(1,2) c1(1,2,3) by blast
qed

theorem C9_summary_top_k_witness:
  "update_community_detection louvain5 3 ''boredapeyachtclub'' store_p =
     (Return (), snd (update_community_detection louvain5 3 ''boredapeyachtclub'' store_p)) \<and>
   community_summary ''boredapeyachtclub'' 0
     (snd (update_community_detection louvain5 3 ''boredapeyachtclub'' store_p)) =
     Some [12, 11, 14] \<and>
   map (community_size rows5) [10, 11, 12, 13, 14] = [1, 2, 3, 1, 2] \<and>
   top_k_by_size 3 rows5 [12, 11, 14]"
proof -
  let ?r = "update_community_detection louvain5 3 ''boredapeyachtclub'' store_p"
  have "fst ?r = Return ()" by code_simp
  then have run: "?r = (Return (), snd ?r)"
    by (metis prod.collapse)
  have c: "get_processed_collection_name ''boredapeyachtclub'' = ''boredapeyachtclub''"
    by code_simp
  have s: "community_summary ''boredapeyachtclub'' 0 (snd ?r) = Some [12, 11, 14]"
    by code_simp
  have z: "map (community_size rows5) [10, 11, 12, 13, 14] = [1, 2, 3, 1, 2]"
    by code_simp
  from C9_summary_top_k [OF run] obtain rows0 ids0 where
    "louvain5 (''boredapeyachtclub'' @ ''_owned'') = Return rows0"
    "community_summary (get_processed_collection_name ''boredapeyachtclub'') 0 (snd ?r) = Some ids0"
    "top_k_by_size 3 rows0 ids0"
    by blast
  with s c have "top_k_by_size 3 rows5 [12, 11, 14]"
    by (simp add: louvain5_def rows5_def)
  with run s z show ?thesis by blast
qed

section \<open>The membership arrays of a detection run\<close>

lemma node_updates_Return:
  "node_updates c cid scope g ms = Return us \<Longrightarrow>
   us = map (\<lambda>nid. (nid, (the (get_all_node_properties c g nid))[scope := cid])) ms \<and>
   (\<forall>nid\<in>set ms. \<exists>xs. get_all_node_properties c g nid = Some xs \<and> scope < length xs)"
proof (induction ms arbitrary: us)
  case Nil
  then show ?case by simp
next
  case (Cons m ms)
  then show ?case
    by (auto split: option.splits if_splits outcome.splits)
qed

lemma fold_set_property:
  "fold (set_property c) (map (\<lambda>nid. (nid, h nid)) ms) g =
   g\<lparr>nodes := map (write_members c h ms) (nodes g)\<rparr>"
proof (induction ms rule: rev_induct)
  case Nil
  then show ?case by (simp add: write_members_def)
next
  case (snoc m ms)
  have key: "(if node_id (write_members c h ms n) = m
         then (write_members c h ms n)\<lparr>com_id_list :=
                (com_id_list (write_members c h ms n))(c := Some (h m))\<rparr>
         else write_members c h ms n) = write_members c h (ms @ [m]) n" for n
    by (simp add: write_members_def)
  have "fold (set_property c) (map (\<lambda>nid. (nid, h nid)) (ms @ [m])) g =
        set_property c (m, h m) (g\<lparr>nodes := map (write_members c h ms) (nodes g)\<rparr>)"
    by (simp add: snoc)
  also have "\<dots> = g\<lparr>nodes := map (write_members c h (ms @ [m])) (nodes g)\<rparr>"
    by (simp add: set_property_def o_def key cong: if_cong)
  finally show ?case .
qed

lemma write_members_id [simp]: "node_id (write_members c h ms n) = node_id n"
  by (simp add: write_members_def)

lemma filter_id_write_members:
  "filter (\<lambda>n. node_id n = nid) (map (write_members c h ms) ns) =
   map (write_members c h ms) (filter (\<lambda>n. node_id n = nid) ns)"
  by (simp add: filter_map o_def)

lemma get_all_node_properties_Some:
  assumes "get_all_node_properties c g nid = Some xs"
  shows "filter (\<lambda>n. node_id n = nid) (nodes g) \<noteq> []"
    and "com_id_list (last (filter (\<lambda>n. node_id n = nid) (nodes g))) c = Some xs"
  using assms by (auto simp: get_all_node_properties_def split: list.splits)

lemma update_nodes_com_property_Return:
  assumes "update_nodes_com_property cn cid ms scope g = (Return u, g')"
  defines "c \<equiv> get_processed_collection_name cn"
  defines "h \<equiv> \<lambda>nid. (the (get_all_node_properties c g nid))[scope := cid]"
  shows "g' = g\<lparr>nodes := map (write_members c h ms) (nodes g)\<rparr>"
    and "\<forall>nid\<in>set ms. \<exists>xs. get_all_node_properties c g nid = Some xs \<and> scope < length xs"
proof -
  from assms(1) obtain us where us: "node_updates c cid scope g ms = Return us"
    and g': "g' = update_node_properties us c g"
    by (auto simp: update_nodes_com_property_def Let_def c_def split: outcome.splits)
  from node_updates_Return [OF us]
  have "us = map (\<lambda>nid. (nid, h nid)) ms"
    and ok: "\<forall>nid\<in>set ms. \<exists>xs. get_all_node_properties c g nid = Some xs \<and> scope < length xs"
    by (simp_all add: h_def)
  then show "g' = g\<lparr>nodes := map (write_members c h ms) (nodes g)\<rparr>"
    by (simp add: g' update_node_properties_def fold_set_property)
  show "\<forall>nid\<in>set ms. \<exists>xs. get_all_node_properties c g nid = Some xs \<and> scope < length xs"
    by (rule ok)
qed

lemma member_written:
  assumes "update_nodes_com_property cn cid ms scope g = (Return u, g')" and "nid \<in> set ms"
  shows "has_community (get_processed_collection_name cn) scope cid nid g'"
proof -
  let ?c = "get_processed_collection_name cn"
  let ?h = "\<lambda>nid. (the (get_all_node_properties ?c g nid))[scope := cid]"
  note r = update_nodes_com_property_Return [OF assms(1)]
  from r(2) assms(2) obtain xs where xs: "get_all_node_properties ?c g nid = Some xs"
    "scope < length xs" by blast
  have ne: "filter (\<lambda>n. node_id n = nid) (nodes g) \<noteq> []"
    using xs(1) by (rule get_all_node_properties_Some)
  have "in_community ?c scope cid (write_members ?c ?h ms n)" if "node_id n = nid" for n
    using that assms(2) xs by (simp add: write_members_def in_community_def)
  then show ?thesis
    unfolding has_community_def r(1)
    by (simp add: filter_id_write_members ne list_all_iff)
qed

lemma other_node_kept:
  assumes "update_nodes_com_property cn cid ms scope g = (Return u, g')" and "nid \<notin> set ms"
  shows "has_community c j x nid g' = has_community c j x nid g"
proof -
  note r = update_nodes_com_property_Return [OF assms(1)]
  have "map (write_members c' h ms) (filter (\<lambda>n. node_id n = nid) ns) =
        filter (\<lambda>n. node_id n = nid) ns" for c' h ns
    using assms(2) by (induction ns) (auto simp: write_members_def)
  then show ?thesis
    unfolding has_community_def r(1) by (simp add: filter_id_write_members)
qed

lemma other_index_kept:
  assumes "update_nodes_com_property cn cid ms scope g = (Return u, g')" and "j \<noteq> scope"
    and "has_community (get_processed_collection_name cn) j x nid g"
  shows "has_community (get_processed_collection_name cn) j x nid g'"
proof (cases "nid \<in> set ms")
  case False
  with assms show ?thesis by (simp add: other_node_kept)
next
  case True
  let ?c = "get_processed_collection_name cn"
  let ?h = "\<lambda>nid. (the (get_all_node_properties ?c g nid))[scope := cid]"
  let ?F = "filter (\<lambda>n. node_id n = nid) (nodes g)"
  note r = update_nodes_com_property_Return [OF assms(1)]
  from r(2) True obtain xs where xs: "get_all_node_properties ?c g nid = Some xs" by blast
  from assms(3) have ne: "?F \<noteq> []" and all: "\<forall>n\<in>set ?F. in_community ?c j x n"
    by (simp_all add: has_community_def list_all_iff)
  from ne have "last ?F \<in> set ?F" by (rule last_in_set)
  with all have "in_community ?c j x (last ?F)" by blast
  with get_all_node_properties_Some(2) [OF xs] have "j < length xs" "xs ! j = x"
    by (simp_all add: in_community_def)
  with assms(2) xs have "in_community ?c j x (write_members ?c ?h ms n)" if "node_id n = nid" for n
    using that True by (simp add: write_members_def in_community_def)
  then show ?thesis
    unfolding has_community_def r(1)
    by (simp add: filter_id_write_members ne list_all_iff)
qed

lemma for_records_ConsE:
  assumes "for_records cn scope (r # rs) g = (Return ids, g')"
  obtains u g1 ids' where
    "update_nodes_com_property cn (fst r) (snd r) scope g = (Return u, g1)"
    "for_records cn scope rs g1 = (Return ids', g')"
proof -
  from assms obtain u g1 where
    1: "update_nodes_com_property cn (fst r) (snd r) scope g = (Return u, g1)" and
    2: "and_then (for_records cn scope rs) (\<lambda>community_id g'. (Return (fst r # community_id), g')) g1
        = (Return ids, g')"
    unfolding for_records.simps by (rule and_then_ReturnE)
  from 2 obtain ids' g2 where
    3: "for_records cn scope rs g1 = (Return ids', g2)" and
    4: "(Return (fst r # ids'), g2) = (Return ids, g')"
    by (rule and_then_ReturnE)
  from 1 3 4 show ?thesis by (auto intro: that)
qed

lemma for_records_other_node:
  "for_records cn scope rs g = (Return ids, g') \<Longrightarrow> \<forall>r\<in>set rs. nid \<notin> set (snd r) \<Longrightarrow>
   has_community c j x nid g' = has_community c j x nid g"
proof (induction rs arbitrary: g ids)
  case Nil
  then show ?case by simp
next
  case (Cons r rs)
  from Cons.prems(1) obtain u g1 ids' where
    1: "update_nodes_com_property cn (fst r) (snd r) scope g = (Return u, g1)" and
    2: "for_records cn scope rs g1 = (Return ids', g')"
    by (rule for_records_ConsE)
  from Cons.prems(2) have "nid \<notin> set (snd r)" "\<forall>r\<in>set rs. nid \<notin> set (snd r)"
    by simp_all
  with Cons.IH [OF 2] other_node_kept [OF 1] show ?case by simp
qed

lemma for_records_other_index:
  "for_records cn scope rs g = (Return ids, g') \<Longrightarrow> j \<noteq> scope \<Longrightarrow>
   has_community (get_processed_collection_name cn) j x nid g \<Longrightarrow>
   has_community (get_processed_collection_name cn) j x nid g'"
proof (induction rs arbitrary: g ids)
  case Nil
  then show ?case by simp
next
  case (Cons r rs)
  from Cons.prems(1) obtain u g1 ids' where
    1: "update_nodes_com_property cn (fst r) (snd r) scope g = (Return u, g1)" and
    2: "for_records cn scope rs g1 = (Return ids', g')"
    by (rule for_records_ConsE)
  from other_index_kept [OF 1 Cons.prems(2,3)] Cons.IH [OF 2 Cons.prems(2)]
  show ?case by simp
qed

lemma for_records_members:
  "for_records cn scope rs g = (Return ids, g') \<Longrightarrow> distinct (map fst rows) \<Longrightarrow>
   distinct (map fst rs) \<Longrightarrow> \<forall>r\<in>set rs. \<forall>nid\<in>set (snd r). (nid, fst r) \<in> set rows \<Longrightarrow>
   r \<in> set rs \<Longrightarrow> nid \<in> set (snd r) \<Longrightarrow>
   has_community (get_processed_collection_name cn) scope (fst r) nid g'"
proof (induction rs arbitrary: g ids)
  case Nil
  then show ?case by simp
next
  case (Cons r0 rs)
  from Cons.prems(1) obtain u g1 ids' where
    1: "update_nodes_com_property cn (fst r0) (snd r0) scope g = (Return u, g1)" and
    2: "for_records cn scope rs g1 = (Return ids', g')"
    by (rule for_records_ConsE)
  show ?case
  proof (cases "r = r0")
    case True
    have "nid \<notin> set (snd r')" if "r' \<in> set rs" for r'
    proof
      assume "nid \<in> set (snd r')"
      with that Cons.prems(4) have "(nid, fst r') \<in> set rows" by simp
      moreover from Cons.prems(4,6) True have "(nid, fst r0) \<in> set rows" by simp
      ultimately have "fst r' = fst r0"
        using Cons.prems(2) by (meson eq_key_imp_eq_value)
      moreover from Cons.prems(3) have "fst r0 \<notin> fst ` set rs" by simp
      ultimately show False using that by (metis imageI)
    qed
    then have "has_community (get_processed_collection_name cn) scope (fst r0) nid g' =
        has_community (get_processed_collection_name cn) scope (fst r0) nid g1"
      using for_records_other_node [OF 2] by blast
    with member_written [OF 1] Cons.prems(6) True show ?thesis by simp
  next
    case False
    with Cons.prems have "r \<in> set rs" "distinct (map fst rs)"
      "\<forall>r\<in>set rs. \<forall>nid\<in>set (snd r). (nid, fst r) \<in> set rows"
      by simp_all
    with Cons.IH [OF 2 Cons.prems(2)] Cons.prems(6) show ?thesis by blast
  qed
qed

lemma detect_scope_ReturnE:
  assumes "detect_scope en limit cn suffix scope g = (Return u, g')"
  obtains rs g1 where "com_query en (cn @ suffix) limit g = Return rs"
    and "for_records cn scope rs g = (Return (map fst rs), g1)"
    and "update_community_id_info (map fst rs) cn scope g1 = (Return u, g')"
proof -
  from assms obtain rs where rs: "com_query en (cn @ suffix) limit g = Return rs"
    by (cases "com_query en (cn @ suffix) limit g") (auto simp: detect_scope_def)
  from assms rs obtain ids g1 where
    1: "for_records cn scope rs g = (Return ids, g1)" and
    2: "update_community_id_info ids cn scope g1 = (Return u, g')"
    unfolding detect_scope_def by (auto elim: and_then_ReturnE)
  from for_records_ids [OF 1] 1 2 rs show ?thesis
    by (auto intro: that)
qed

lemma update_community_id_info_nodes:
  "nodes (snd (update_community_id_info ids cn scope g)) = nodes g"
  by (simp add: update_community_id_info_def Let_def split: list.split option.split)

lemma com_query_rows:
  assumes "com_query en name limit g = Return rs" and "en name = Return rows"
  shows "distinct (map fst rs)" and "set rs \<subseteq> set (group_communities rows)"
proof -
  let ?ordered = "sort_key (\<lambda>r. - int (length (snd r))) (group_communities rows)"
  from assms have "stream en name g = Return rows"
    by (auto simp: com_query_def stream_def split: if_splits)
  with assms(1) obtain k where rs: "rs = take k ?ordered"
    by (auto simp: com_query_def Let_def limit_rows_def split: if_splits
        intro: that [of "length ?ordered"])
  have "distinct (map fst ?ordered)"
    by (rule ordered_groups)
  then show "distinct (map fst rs)"
    unfolding rs using distinct_take [of "map fst ?ordered" k] by (simp add: take_map)
  show "set rs \<subseteq> set (group_communities rows)"
    unfolding rs using set_take_subset [of k ?ordered] by simp
qed

lemma detect_scope_members:
  assumes run: "detect_scope en limit cn suffix scope g = (Return u, g')"
    and rows: "en (cn @ suffix) = Return rows" "distinct (map fst rows)"
    and ids: "community_summary (get_processed_collection_name cn) scope g' = Some ids"
    and m: "(nid, cid) \<in> set rows" "cid \<in> set ids"
  shows "has_community (get_processed_collection_name cn) scope cid nid g'"
proof -
  let ?c = "get_processed_collection_name cn"
  from run obtain rs g1 where
    q: "com_query en (cn @ suffix) limit g = Return rs" and
    f: "for_records cn scope rs g = (Return (map fst rs), g1)" and
    w: "update_community_id_info (map fst rs) cn scope g1 = (Return u, g')"
    by (rule detect_scope_ReturnE)
  note cq = com_query_rows [OF q rows(1)]
  have "community_summary ?c scope g' = Some (map fst rs)"
    using w update_community_id_info_summary(1) [of "map fst rs" cn scope g1 g'] by simp
  with ids m(2) obtain r where r: "r \<in> set rs" "fst r = cid" by auto
  with cq(2) m(1) have "nid \<in> set (snd r)"
    using group_communities_members [of r rows nid] by auto
  moreover have "\<forall>r\<in>set rs. \<forall>nid\<in>set (snd r). (nid, fst r) \<in> set rows"
    using cq(2) group_communities_members by blast
  ultimately have "has_community ?c scope (fst r) nid g1"
    using for_records_members [OF f rows(2) cq(1) _ r(1)] by blast
  moreover have "nodes g' = nodes g1"
    using update_community_id_info_nodes [of "map fst rs" cn scope g1] w by simp
  ultimately show ?thesis
    using r(2) by (simp add: has_community_def)
qed

lemma detect_scope_other_index:
  assumes run: "detect_scope en limit cn suffix scope g = (Return u, g')" and "j \<noteq> scope"
    and "has_community (get_processed_collection_name cn) j x nid g"
  shows "has_community (get_processed_collection_name cn) j x nid g'"
proof -
  from run obtain rs g1 where
    f: "for_records cn scope rs g = (Return (map fst rs), g1)" and
    w: "update_community_id_info (map fst rs) cn scope g1 = (Return u, g')"
    by (rule detect_scope_ReturnE)
  have "nodes g' = nodes g1"
    using update_community_id_info_nodes [of "map fst rs" cn scope g1] w by simp
  with for_records_other_index [OF f assms(2,3)] show ?thesis
    by (simp add: has_community_def)
qed

lemma detect_scope_other_summary:
  assumes "detect_scope en limit cn suffix scope g = (Return u, g')" and "j \<noteq> scope"
  shows "community_summary (get_processed_collection_name cn) j g' =
         community_summary (get_processed_collection_name cn) j g"
proof -
  from assms(1) have "detect_scope en limit cn suffix scope g = (Return (), g')" by simp
  then show ?thesis
    using assms(2) by (auto elim: detect_scope_summary)
qed

lemma detection_members:
  assumes run: "update_community_detection en limit cn g = (Return (), g')"
  defines "c \<equiv> get_processed_collection_name cn"
  shows "en (cn @ ''_owned'') = Return rows \<Longrightarrow> distinct (map fst rows) \<Longrightarrow>
         community_summary c 0 g' = Some ids \<Longrightarrow> (nid, cid) \<in> set rows \<Longrightarrow> cid \<in> set ids \<Longrightarrow>
         has_community c 0 cid nid g'"
    and "en (cn @ ''_trx'') = Return rows \<Longrightarrow> distinct (map fst rows) \<Longrightarrow>
         community_summary c 1 g' = Some ids \<Longrightarrow> (nid, cid) \<in> set rows \<Longrightarrow> cid \<in> set ids \<Longrightarrow>
         has_community c 1 cid nid g'"
    and "en (cn @ ''_owned_trx'') = Return rows \<Longrightarrow> distinct (map fst rows) \<Longrightarrow>
         community_summary c 2 g' = Some ids \<Longrightarrow> (nid, cid) \<in> set rows \<Longrightarrow> cid \<in> set ids \<Longrightarrow>
         has_community c 2 cid nid g'"
proof -
  from run obtain u1 g1 where
    a: "detect_scope en limit cn ''_owned'' 0 g = (Return u1, g1)" and
    r1: "and_then (detect_scope en limit cn ''_trx'' 1)
           (\<lambda>_. detect_scope en limit cn ''_owned_trx'' 2) g1 = (Return (), g')"
    unfolding update_community_detection_def by (rule and_then_ReturnE)
  from r1 obtain u2 g2 where
    b: "detect_scope en limit cn ''_trx'' 1 g1 = (Return u2, g2)" and
    d: "detect_scope en limit cn ''_owned_trx'' 2 g2 = (Return (), g')"
    by (rule and_then_ReturnE)
  have s0: "community_summary c 0 g' = community_summary c 0 g1"
    using detect_scope_other_summary [OF b, of 0] detect_scope_other_summary [OF d, of 0]
    by (simp add: c_def)
  have s1: "community_summary c 1 g' = community_summary c 1 g2"
    using detect_scope_other_summary [OF d, of 1] by (simp add: c_def)
  {
    assume "en (cn @ ''_owned'') = Return rows" "distinct (map fst rows)"
      "community_summary c 0 g' = Some ids" "(nid, cid) \<in> set rows" "cid \<in> set ids"
    then have "has_community c 0 cid nid g1"
      unfolding c_def s0 [unfolded c_def] by (rule detect_scope_members [OF a])
    then have "has_community c 0 cid nid g2"
      unfolding c_def using detect_scope_other_index [OF b] by simp
    then show "has_community c 0 cid nid g'"
      unfolding c_def using detect_scope_other_index [OF d] by simp
  }
  {
    assume "en (cn @ ''_trx'') = Return rows" "distinct (map fst rows)"
      "community_summary c 1 g' = Some ids" "(nid, cid) \<in> set rows" "cid \<in> set ids"
    then have "has_community c 1 cid nid g2"
      unfolding c_def s1 [unfolded c_def] by (rule detect_scope_members [OF b])
    then show "has_community c 1 cid nid g'"
      unfolding c_def using detect_scope_other_index [OF d] by simp
  }
  {
    assume "en (cn @ ''_owned_trx'') = Return rows" "distinct (map fst rows)"
      "community_summary c 2 g' = Some ids" "(nid, cid) \<in> set rows" "cid \<in> set ids"
    then show "has_community c 2 cid nid g'"
      unfolding c_def by (rule detect_scope_members [OF d])
  }
qed

text \<open>Without the assumption that the engine streams every node once: a member node
  ends with the id of one of the listed communities it was streamed for.\<close>

lemma for_records_members_any:
  "for_records cn scope rs g = (Return ids, g') \<Longrightarrow> r \<in> set rs \<Longrightarrow> nid \<in> set (snd r) \<Longrightarrow>
   \<exists>r'\<in>set rs. nid \<in> set (snd r') \<and>
     has_community (get_processed_collection_name cn) scope (fst r') nid g'"
proof (induction rs arbitrary: g ids r)
  case Nil
  then show ?case by simp
next
  case (Cons r0 rs)
  from Cons.prems(1) obtain u g1 ids' where
    1: "update_nodes_com_property cn (fst r0) (snd r0) scope g = (Return u, g1)" and
    2: "for_records cn scope rs g1 = (Return ids', g')"
    by (rule for_records_ConsE)
  show ?case
  proof (cases "\<exists>r'\<in>set rs. nid \<in> set (snd r')")
    case True
    then obtain r' where "r' \<in> set rs" "nid \<in> set (snd r')" by blast
    from Cons.IH [OF 2 this] show ?thesis by auto
  next
    case False
    with Cons.prems(2,3) have m: "nid \<in> set (snd r0)" by auto
    from False have "has_community (get_processed_collection_name cn) scope (fst r0) nid g' =
        has_community (get_processed_collection_name cn) scope (fst r0) nid g1"
      using for_records_other_node [OF 2] by blast
    with member_written [OF 1 m] m show ?thesis by auto
  qed
qed

lemma detect_scope_members_any:
  assumes run: "detect_scope en limit cn suffix scope g = (Return u, g')"
    and rows: "en (cn @ suffix) = Return rows"
    and ids: "community_summary (get_processed_collection_name cn) scope g' = Some ids"
    and m: "(nid, cid) \<in> set rows" "cid \<in> set ids"
  shows "\<exists>cid'. (nid, cid') \<in> set rows \<and> cid' \<in> set ids \<and>
           has_community (get_processed_collection_name cn) scope cid' nid g'"
proof -
  let ?c = "get_processed_collection_name cn"
  from run obtain rs g1 where
    q: "com_query en (cn @ suffix) limit g = Return rs" and
    f: "for_records cn scope rs g = (Return (map fst rs), g1)" and
    w: "update_community_id_info (map fst rs) cn scope g1 = (Return u, g')"
    by (rule detect_scope_ReturnE)
  note cq = com_query_rows [OF q rows]
  have "community_summary ?c scope g' = Some (map fst rs)"
    using w update_community_id_info_summary(1) [of "map fst rs" cn scope g1 g'] by simp
  with ids have ids': "ids = map fst rs" by simp
  with m(2) obtain r where r: "r \<in> set rs" "fst r = cid" by auto
  with cq(2) m(1) have "nid \<in> set (snd r)"
    using group_communities_members [of r rows nid] by auto
  from for_records_members_any [OF f r(1) this] obtain r' where
    r': "r' \<in> set rs" "nid \<in> set (snd r')" "has_community ?c scope (fst r') nid g1"
    by blast
  have "nodes g' = nodes g1"
    using update_community_id_info_nodes [of "map fst rs" cn scope g1] w by simp
  with r'(3) have "has_community ?c scope (fst r') nid g'"
    by (simp add: has_community_def)
  moreover from r'(1,2) cq(2) have "(nid, fst r') \<in> set rows"
    using group_communities_members [of r' rows nid] by auto
  moreover from r'(1) ids' have "fst r' \<in> set ids" by simp
  ultimately show ?thesis by blast
qed

lemma detection_members_any:
  assumes run: "update_community_detection en limit cn g = (Return (), g')"
  defines "c \<equiv> get_processed_collection_name cn"
  shows "en (cn @ ''_owned'') = Return rows \<Longrightarrow> community_summary c 0 g' = Some ids \<Longrightarrow>
         (nid, cid) \<in> set rows \<Longrightarrow> cid \<in> set ids \<Longrightarrow>
         \<exists>cid'. (nid, cid') \<in> set rows \<and> cid' \<in> set ids \<and> has_community c 0 cid' nid g'"
    and "en (cn @ ''_trx'') = Return rows \<Longrightarrow> community_summary c 1 g' = Some ids \<Longrightarrow>
         (nid, cid) \<in> set rows \<Longrightarrow> cid \<in> set ids \<Longrightarrow>
         \<exists>cid'. (nid, cid') \<in> set rows \<and> cid' \<in> set ids \<and> has_community c 1 cid' nid g'"
    and "en (cn @ ''_owned_trx'') = Return rows \<Longrightarrow> community_summary c 2 g' = Some ids \<Longrightarrow>
         (nid, cid) \<in> set rows \<Longrightarrow> cid \<in> set ids \<Longrightarrow>
         \<exists>cid'. (nid, cid') \<in> set rows \<and> cid' \<in> set ids \<and> has_community c 2 cid' nid g'"
proof -
  from run obtain u1 g1 where
    a: "detect_scope en limit cn ''_owned'' 0 g = (Return u1, g1)" and
    r1: "and_then (detect_scope en limit cn ''_trx'' 1)
           (\<lambda>_. detect_scope en limit cn ''_owned_trx'' 2) g1 = (Return (), g')"
    unfolding update_community_detection_def by (rule and_then_ReturnE)
  from r1 obtain u2 g2 where
    b: "detect_scope en limit cn ''_trx'' 1 g1 = (Return u2, g2)" and
    d: "detect_scope en limit cn ''_owned_trx'' 2 g2 = (Return (), g')"
    by (rule and_then_ReturnE)
  have s0: "community_summary c 0 g' = community_summary c 0 g1"
    using detect_scope_other_summary [OF b, of 0] detect_scope_other_summary [OF d, of 0]
    by (simp add: c_def)
  have s1: "community_summary c 1 g' = community_summary c 1 g2"
    using detect_scope_other_summary [OF d, of 1] by (simp add: c_def)
  {
    assume "en (cn @ ''_owned'') = Return rows" "community_summary c 0 g' = Some ids"
      "(nid, cid) \<in> set rows" "cid \<in> set ids"
    then obtain cid' where c': "(nid, cid') \<in> set rows" "cid' \<in> set ids"
      "has_community c 0 cid' nid g1"
      unfolding c_def s0 [unfolded c_def] using detect_scope_members_any [OF a] by blast
    from c'(3) have "has_community c 0 cid' nid g2"
      unfolding c_def using detect_scope_other_index [OF b] by simp
    then have "has_community c 0 cid' nid g'"
      unfolding c_def using detect_scope_other_index [OF d] by simp
    with c'(1,2)
    show "\<exists>cid'. (nid, cid') \<in> set rows \<and> cid' \<in> set ids \<and> has_community c 0 cid' nid g'"
      by blast
  }
  {
    assume "en (cn @ ''_trx'') = Return rows" "community_summary c 1 g' = Some ids"
      "(nid, cid) \<in> set rows" "cid \<in> set ids"
    then obtain cid' where c': "(nid, cid') \<in> set rows" "cid' \<in> set ids"
      "has_community c 1 cid' nid g2"
      unfolding c_def s1 [unfolded c_def] using detect_scope_members_any [OF b] by blast
    from c'(3) have "has_community c 1 cid' nid g'"
      unfolding c_def using detect_scope_other_index [OF d] by simp
    with c'(1,2)
    show "\<exists>cid'. (nid, cid') \<in> set rows \<and> cid' \<in> set ids \<and> has_community c 1 cid' nid g'"
      by blast
  }
  {
    assume "en (cn @ ''_owned_trx'') = Return rows" "community_summary c 2 g' = Some ids"
      "(nid, cid) \<in> set rows" "cid \<in> set ids"
    then show "\<exists>cid'. (nid, cid') \<in> set rows \<and> cid' \<in> set ids \<and> has_community c 2 cid' nid g'"
      unfolding c_def using detect_scope_members_any [OF d] by blast
  }
qed

lemma get_scope_cases:
  "get_scope lbl =
     (if upper lbl = upper ''ownership'' then Return 0
      else if upper lbl = upper ''transaction'' then Return 1
      else if upper lbl = upper ''all'' then Return 2
      else Raise NotExistsException)"
proof -
  have "upper ''ownership'' = ''OWNERSHIP''" "upper ''transaction'' = ''TRANSACTION''"
    "upper ''all'' = ''ALL''"
    by code_simp+
  then show ?thesis
    by (simp only: get_scope_def)
qed

text \<open>
  C8, as the claim states it, fails. \<open>get_scope\<close> compares the upper-cased label, so a
  label other than the three, such as \<open>OWNERSHIP\<close>, is mapped to an index as well. A
  detection run with the limit 3 on the five communities of \<open>louvain5\<close> completes, and
  node 1, the member of the community 10 that the limit cuts off, does not carry
  that id. A detection run on a store where the streamed node 1 has no membership
  array raises at that node, and node 4 never gets its community 31 at index 2.
\<close>

theorem C8_other_label_accepted:
  "''OWNERSHIP'' \<noteq> ''ownership'' \<and> ''OWNERSHIP'' \<noteq> ''transaction'' \<and> ''OWNERSHIP'' \<noteq> ''all'' \<and>
   get_scope ''OWNERSHIP'' = Return 0 \<and>
   fst (update_community_detection louvain5 3 ''boredapeyachtclub'' store_p) = Return () \<and>
   (1, 10) \<in> set rows5 \<and>
   \<not> has_community ''boredapeyachtclub'' 0 10 1
       (snd (update_community_detection louvain5 3 ''boredapeyachtclub'' store_p)) \<and>
   fst (run_community_detection louvain_nft 100 ''boredapeyachtclub''
          (insert_new_trx_data ev_ab store_ci)) = ''Something went wrong QAQ'' \<and>
   \<not> has_community ''boredapeyachtclub'' 2 31 4
       (snd (run_community_detection louvain_nft 100 ''boredapeyachtclub''
               (insert_new_trx_data ev_ab store_ci)))"
  by code_simp

text \<open>
  C8, amended. A scope label is compared without regard to letter case (for ASCII
  labels): the label that equals \<open>ownership\<close>, \<open>transaction\<close> or \<open>all\<close> after upper-casing
  is mapped to the index 0, 1 or 2, every other label is rejected with
  \<open>NotExistsException\<close>. A detection run that completes has written, for the projections
  \<open>_owned\<close>, \<open>_trx\<close> and \<open>_owned_trx\<close>, into index 0, 1 and 2 of the membership array of
  every member node of every community listed in the summary of the scope the id of a
  listed community that the engine has streamed for the node; that is the community
  itself when the engine streams every node once.
\<close>

theorem C8_scope_mapping:
  "(ascii lbl \<longrightarrow>
      get_scope lbl =
        (if upper lbl = upper ''ownership'' then Return 0
         else if upper lbl = upper ''transaction'' then Return 1
         else if upper lbl = upper ''all'' then Return 2
         else Raise NotExistsException)) \<and>
   (update_community_detection en limit cn g = (Return (), g') \<longrightarrow>
      (en (cn @ ''_owned'') = Return rowsA \<longrightarrow>
         community_summary (get_processed_collection_name cn) 0 g' = Some idsA \<longrightarrow>
         (\<forall>(nid, cid) \<in> set rowsA. cid \<in> set idsA \<longrightarrow>
            (\<exists>cid'. (nid, cid') \<in> set rowsA \<and> cid' \<in> set idsA \<and>
               has_community (get_processed_collection_name cn) 0 cid' nid g') \<and>
            (distinct (map fst rowsA) \<longrightarrow>
               has_community (get_processed_collection_name cn) 0 cid nid g'))) \<and>
      (en (cn @ ''_trx'') = Return rowsB \<longrightarrow>
         community_summary (get_processed_collection_name cn) 1 g' = Some idsB \<longrightarrow>
         (\<forall>(nid, cid) \<in> set rowsB. cid \<in> set idsB \<longrightarrow>
            (\<exists>cid'. (nid, cid') \<in> set rowsB \<and> cid' \<in> set idsB \<and>
               has_community (get_processed_collection_name cn) 1 cid' nid g') \<and>
            (distinct (map fst rowsB) \<longrightarrow>
               has_community (get_processed_collection_name cn) 1 cid nid g'))) \<and>
      (en (cn @ ''_owned_trx'') = Return rowsC \<longrightarrow>
         community_summary (get_processed_collection_name cn) 2 g' = Some idsC \<longrightarrow>
         (\<forall>(nid, cid) \<in> set rowsC. cid \<in> set idsC \<longrightarrow>
            (\<exists>cid'. (nid, cid') \<in> set rowsC \<and> cid' \<in> set idsC \<and>
               has_community (get_processed_collection_name cn) 2 cid' nid g') \<and>
            (distinct (map fst rowsC) \<longrightarrow>
               has_community (get_processed_collection_name cn) 2 cid nid g'))))"
proof (intro conjI impI)
  show "get_scope lbl =
        (if upper lbl = upper ''ownership'' then Return 0
         else if upper lbl = upper ''transaction'' then Return 1
         else if upper lbl = upper ''all'' then Return 2
         else Raise NotExistsException)"
    by (rule get_scope_cases)
next
  assume run: "update_community_detection en limit cn g = (Return (), g')"
    and "en (cn @ ''_owned'') = Return rowsA"
    and "community_summary (get_processed_collection_name cn) 0 g' = Some idsA"
  then show "\<forall>(nid, cid) \<in> set rowsA. cid \<in> set idsA \<longrightarrow>
            (\<exists>cid'. (nid, cid') \<in> set rowsA \<and> cid' \<in> set idsA \<and>
               has_community (get_processed_collection_name cn) 0 cid' nid g') \<and>
            (distinct (map fst rowsA) \<longrightarrow>
               has_community (get_processed_collection_name cn) 0 cid nid g')"
    using detection_members_any(1) [OF run, of rowsA idsA]
      detection_members(1) [OF run, of rowsA idsA]
    by (intro ballI) (simp only: split_paired_all prod.case, blast)
next
  assume run: "update_community_detection en limit cn g = (Return (), g')"
    and "en (cn @ ''_trx'') = Return rowsB"
    and "community_summary (get_processed_collection_name cn) 1 g' = Some idsB"
  then show "\<forall>(nid, cid) \<in> set rowsB. cid \<in> set idsB \<longrightarrow>
            (\<exists>cid'. (nid, cid') \<in> set rowsB \<and> cid' \<in> set idsB \<and>
               has_community (get_processed_collection_name cn) 1 cid' nid g') \<and>
            (distinct (map fst rowsB) \<longrightarrow>
               has_community (get_processed_collection_name cn) 1 cid nid g')"
    using detection_members_any(2) [OF run, of rowsB idsB]
      detection_members(2) [OF run, of rowsB idsB]
    by (intro ballI) (simp only: split_paired_all prod.case, blast)
next
  assume run: "update_community_detection en limit cn g = (Return (), g')"
    and "en (cn @ ''_owned_trx'') = Return rowsC"
    and "community_summary (get_processed_collection_name cn) 2 g' = Some idsC"
  then show "\<forall>(nid, cid) \<in> set rowsC. cid \<in> set idsC \<longrightarrow>
            (\<exists>cid'. (nid, cid') \<in> set rowsC \<and> cid' \<in> set idsC \<and>
               has_community (get_processed_collection_name cn) 2 cid' nid g') \<and>
            (distinct (map fst rowsC) \<longrightarrow>
               has_community (get_processed_collection_name cn) 2 cid nid g')"
    using detection_members_any(3) [OF run, of rowsC idsC]
      detection_members(3) [OF run, of rowsC idsC]
    by (intro ballI) (simp only: split_paired_all prod.case, blast)
qed

theorem C8_scope_mapping_witness:
  "ascii ''Ownership'' \<and> get_scope ''Ownership'' = Return 0 \<and>
   update_community_detection louvain5 3 ''boredapeyachtclub'' store_p =
     (Return (), snd (update_community_detection louvain5 3 ''boredapeyachtclub'' store_p)) \<and>
   louvain5 (''boredapeyachtclub'' @ ''_owned'') = Return rows5 \<and> distinct (map fst rows5) \<and>
   community_summary ''boredapeyachtclub'' 0
     (snd (update_community_detection louvain5 3 ''boredapeyachtclub'' store_p)) =
     Some [12, 11, 14] \<and>
   (4, 12) \<in> set rows5 \<and> 12 \<in> set [12, 11, 14 :: int] \<and>
   has_community ''boredapeyachtclub'' 0 12 4
     (snd (update_community_detection louvain5 3 ''boredapeyachtclub'' store_p)) \<and>
   has_community ''boredapeyachtclub'' 1 12 4
     (snd (update_community_detection louvain5 3 ''boredapeyachtclub'' store_p)) \<and>
   has_community ''boredapeyachtclub'' 2 12 4
     (snd (update_community_detection louvain5 3 ''boredapeyachtclub'' store_p))"
proof -
  let ?r = "update_community_detection louvain5 3 ''boredapeyachtclub'' store_p"
  have h1: "ascii ''Ownership''" by code_simp
  have u: "upper ''Ownership'' = upper ''ownership''" by code_simp
  have "fst ?r = Return ()" by code_simp
  then have run: "?r = (Return (), snd ?r)"
    by (metis prod.collapse)
  have c: "get_processed_collection_name ''boredapeyachtclub'' = ''boredapeyachtclub''"
    by code_simp
  have en: "louvain5 name = Return rows5" for name
    by (simp add: louvain5_def rows5_def)
  have d: "distinct (map fst rows5)" by code_simp
  have s: "community_summary ''boredapeyachtclub'' 0 (snd ?r) = Some [12, 11, 14]"
    "community_summary ''boredapeyachtclub'' 1 (snd ?r) = Some [12, 11, 14]"
    "community_summary ''boredapeyachtclub'' 2 (snd ?r) = Some [12, 11, 14]"
    by code_simp+
  have m: "(4, 12) \<in> set rows5" "12 \<in> set [12, 11, 14 :: int]"
    by (simp_all add: rows5_def)
  note w = C8_scope_mapping
    [where lbl = "''Ownership''" and en = louvain5 and limit = 3 and cn = "''boredapeyachtclub''"
       and g = store_p and g' = "snd ?r" and rowsA = rows5 and rowsB = rows5 and rowsC = rows5
       and idsA = "[12, 11, 14]" and idsB = "[12, 11, 14]" and idsC = "[12, 11, 14]",
     unfolded c]
  from w h1 u have 1: "get_scope ''Ownership'' = Return 0" by simp
  from w run en d s m have 2:
    "has_community ''boredapeyachtclub'' 0 12 4 (snd ?r)"
    "has_community ''boredapeyachtclub'' 1 12 4 (snd ?r)"
    "has_community ''boredapeyachtclub'' 2 12 4 (snd ?r)"
    by blast+
  from h1 1 run en d s(1) m 2 show ?thesis by blast
qed

section \<open>Concurrent centrality operations\<close>

text \<open>The step of a caller at each position.\<close>

lemma step_at_list:
  "caller_step en limit \<lparr>at = AtList, graph_names = gn, central_nodes = cn, raised = None\<rparr> g =
   (\<lparr>at = AtCleanUp, graph_names = remdups (projections g), central_nodes = cn, raised = None\<rparr>,
    g, [])"
  by (simp add: caller_step_def gds_graph_list_def)

lemma step_at_clean_up:
  "caller_step en limit \<lparr>at = AtCleanUp, graph_names = gn, central_nodes = cn, raised = None\<rparr> g =
   (if ''centralityGraph'' \<in> set gn then
      if ''centralityGraph'' \<in> set (projections g)
      then (\<lparr>at = AtCreate, graph_names = gn, central_nodes = cn, raised = None\<rparr>,
            g\<lparr>projections := removeAll ''centralityGraph'' (projections g)\<rparr>, [Drop])
      else (\<lparr>at = AtCleanUp, graph_names = gn, central_nodes = cn, raised = Some ClientError\<rparr>,
            g, [])
    else (\<lparr>at = AtCreate, graph_names = gn, central_nodes = cn, raised = None\<rparr>, g, []))"
  by (simp add: caller_step_def gds_graph_drop_def)

lemma step_at_create:
  "caller_step en limit \<lparr>at = AtCreate, graph_names = gn, central_nodes = cn, raised = None\<rparr> g =
   (if ''centralityGraph'' \<in> set (projections g)
    then (\<lparr>at = AtCreate, graph_names = gn, central_nodes = cn, raised = Some ClientError\<rparr>,
          g, [])
    else (\<lparr>at = AtScoring, graph_names = gn, central_nodes = cn, raised = None\<rparr>,
          g\<lparr>projections := projections g @ [''centralityGraph'']\<rparr>, [Create]))"
  by (simp add: caller_step_def gds_graph_project_def)

lemma step_at_scoring:
  "caller_step en limit \<lparr>at = AtScoring, graph_names = gn, central_nodes = cn, raised = None\<rparr> g =
   (case fst (degree_centrality_query en ''centralityGraph'' limit g) of
      Return rows \<Rightarrow>
        (\<lparr>at = AtDrop, graph_names = gn, central_nodes = rows, raised = None\<rparr>, g, [])
    | Raise e \<Rightarrow>
        (\<lparr>at = AtScoring, graph_names = gn, central_nodes = cn, raised = Some e\<rparr>, g, []))"
  by (simp add: caller_step_def degree_centrality_query_def split: outcome.split)

lemma step_at_drop:
  "caller_step en limit \<lparr>at = AtDrop, graph_names = gn, central_nodes = cn, raised = None\<rparr> g =
   (if ''centralityGraph'' \<in> set (projections g)
    then (\<lparr>at = AtReturn, graph_names = gn, central_nodes = cn, raised = None\<rparr>,
          g\<lparr>projections := removeAll ''centralityGraph'' (projections g)\<rparr>, [Drop])
    else (\<lparr>at = AtDrop, graph_names = gn, central_nodes = cn, raised = Some ClientError\<rparr>,
          g, []))"
  by (simp add: caller_step_def gds_graph_drop_def)

lemma step_raised:
  "caller_step en limit \<lparr>at = p, graph_names = gn, central_nodes = cn, raised = Some e\<rparr> g =
   (\<lparr>at = p, graph_names = gn, central_nodes = cn, raised = Some e\<rparr>, g, [])"
  by (simp add: caller_step_def)

lemmas step_at = step_at_list step_at_clean_up step_at_create step_at_scoring step_at_drop
  step_raised





text \<open>The five steps of one caller, taken without a step of the other caller in
  between, are the function \<open>get_most_central_nodes\<close>, whatever the engine answers.\<close>

lemma five_steps_are_the_call:
  "outcome_of (caller_a (run_schedule en limit [CallerA, CallerA, CallerA, CallerA, CallerA]
                           (two_callers collection_a collection_b g))) =
     fst (get_most_central_nodes en limit collection_a g) \<and>
   shared (run_schedule en limit [CallerA, CallerA, CallerA, CallerA, CallerA]
             (two_callers collection_a collection_b g)) =
     snd (get_most_central_nodes en limit collection_a g)"
proof (cases "get_collection_centrality collection_a")
  case (Raise e)
  then show ?thesis
    by (simp add: run_schedule_def system_step_def two_callers_def start_def step_at
        outcome_of_def get_most_central_nodes_def)
next
  case (Return c)
  let ?g1 = "g\<lparr>projections := removeAll ''centralityGraph'' (projections g) @ [''centralityGraph'']\<rparr>"
  show ?thesis
  proof (cases "fst (degree_centrality_query en ''centralityGraph'' limit ?g1)")
    case q: (Return rows)
    show ?thesis
    proof (cases "''centralityGraph'' \<in> set (projections g)")
      case True
      with Return q show ?thesis
        by (simp add: run_schedule_def system_step_def two_callers_def start_def step_at
            outcome_of_def centrality_result)
    next
      case False
      with Return q show ?thesis
        by (simp add: run_schedule_def system_step_def two_callers_def start_def step_at
            outcome_of_def centrality_result)
    qed
  next
    case q: (Raise e)
    show ?thesis
    proof (cases "''centralityGraph'' \<in> set (projections g)")
      case True
      with Return q show ?thesis
        by (simp add: run_schedule_def system_step_def two_callers_def start_def step_at
            outcome_of_def centrality_result)
    next
      case False
      with Return q show ?thesis
        by (simp add: run_schedule_def system_step_def two_callers_def start_def step_at
            outcome_of_def centrality_result)
    qed
  qed
qed




section \<open>Ownership succession\<close>

text \<open>One \<open>MERGE\<close> of an \<open>OWNED\<close> relationship, for assignments that leave the end nodes
  alone.\<close>

lemma okey_close [simp]: "okey (close_rel ts e) = okey e"
  by (simp add: okey_def close_rel_def)

lemma okey_open [simp]: "okey (open_rel ts e) = okey e"
  by (simp add: okey_def open_rel_def)

lemma okey_blank [simp]:
  "okey \<lparr>o_src = fst p, o_dst = snd p, currently_owned = None, o_from = None, until = None\<rparr> = p"
  by (simp add: okey_def)

lemma merge_owned_keys:
  assumes "\<And>e. okey (upd e) = okey e"
  shows "map okey (merge_owned upd p es) =
         (if p \<in> okey ` set es then map okey es else map okey es @ [p])"
proof -
  have "map (\<lambda>e. okey (if okey e = p then upd e else e)) es = map okey es"
    by (induction es) (simp_all add: assms)
  then show ?thesis
    by (auto simp: merge_owned_def list_ex_iff assms o_def)
qed

lemma merge_owned_cases:
  assumes "\<And>e. okey (upd e) = okey e" and "e' \<in> set (merge_owned upd p es)"
  shows "(okey e' = p \<and> (\<exists>e0. e' = upd e0)) \<or> (okey e' \<noteq> p \<and> e' \<in> set es)"
  using assms(2)
  by (auto simp: merge_owned_def list_ex_iff assms(1) split: if_splits)

lemma merge_owned_keeps:
  "e \<in> set es \<Longrightarrow> okey e \<noteq> p \<Longrightarrow> e \<in> set (merge_owned upd p es)"
  by (auto simp: merge_owned_def)

lemma merge_owned_has:
  assumes "\<And>e. okey (upd e) = okey e"
  shows "p \<in> okey ` set (merge_owned upd p es)"
  using merge_owned_keys [of upd p es, OF assms]
  by (metis (no_types, lifting) in_set_conv_decomp list.set_map)

text \<open>The \<open>MERGE\<close> over all rows.\<close>

lemma fold_merge_distinct:
  assumes "\<And>e. okey (upd e) = okey e"
  shows "distinct (map okey es) \<Longrightarrow> distinct (map okey (fold (merge_owned upd) rows es))"
proof (induction rows arbitrary: es)
  case Nil
  then show ?case by simp
next
  case (Cons p rows)
  from Cons.prems have "distinct (map okey (merge_owned upd p es))"
    by (auto simp: merge_owned_keys [of upd, OF assms])
  then show ?case
    using Cons.IH by simp
qed

lemma fold_merge_untouched:
  assumes "\<And>e. okey (upd e) = okey e"
  shows "e' \<in> set (fold (merge_owned upd) rows es) \<Longrightarrow> okey e' \<notin> set rows \<Longrightarrow> e' \<in> set es"
proof (induction rows arbitrary: es)
  case Nil
  then show ?case by simp
next
  case (Cons p rows)
  from Cons.prems have "e' \<in> set (merge_owned upd p es)"
    using Cons.IH by simp
  with Cons.prems(2) show ?case
    using merge_owned_cases [of upd e' p es, OF assms] by auto
qed

lemma fold_merge_written:
  assumes "\<And>e. okey (upd e) = okey e"
  shows "e' \<in> set (fold (merge_owned upd) rows es) \<Longrightarrow> okey e' \<in> set rows \<Longrightarrow> \<exists>e0. e' = upd e0"
proof (induction rows arbitrary: es)
  case Nil
  then show ?case by simp
next
  case (Cons p rows)
  show ?case
  proof (cases "okey e' \<in> set rows")
    case True
    with Cons.prems(1) Cons.IH show ?thesis by simp
  next
    case False
    with Cons.prems have k: "okey e' = p" by simp
    from Cons.prems(1) False have "e' \<in> set (merge_owned upd p es)"
      using fold_merge_untouched [of upd e' rows, OF assms] by simp
    with k show ?thesis
      using merge_owned_cases [of upd e' p es, OF assms] by auto
  qed
qed

lemma fold_merge_keeps:
  "e \<in> set es \<Longrightarrow> okey e \<notin> set rows \<Longrightarrow> e \<in> set (fold (merge_owned upd) rows es)"
proof (induction rows arbitrary: es)
  case Nil
  then show ?case by simp
next
  case (Cons p rows)
  from Cons.prems have "e \<in> set (merge_owned upd p es)"
    by (simp add: merge_owned_keeps)
  with Cons.prems(2) show ?case
    using Cons.IH by simp
qed

lemma fold_merge_key_kept:
  assumes "\<And>e. okey (upd e) = okey e"
  shows "k \<in> okey ` set es \<Longrightarrow> k \<in> okey ` set (fold (merge_owned upd) rows es)"
proof (induction rows arbitrary: es)
  case Nil
  then show ?case by simp
next
  case (Cons p rows)
  from Cons.prems have "k \<in> set (map okey (merge_owned upd p es))"
    unfolding merge_owned_keys [of upd, OF assms] by auto
  then show ?case
    using Cons.IH by simp
qed

lemma fold_merge_has:
  assumes "\<And>e. okey (upd e) = okey e"
  shows "p \<in> set rows \<Longrightarrow> p \<in> okey ` set (fold (merge_owned upd) rows es)"
proof (induction rows arbitrary: es)
  case Nil
  then show ?case by simp
next
  case (Cons q rows)
  show ?case
  proof (cases "p = q")
    case True
    have "p \<in> okey ` set (merge_owned upd p es)"
      by (rule merge_owned_has [OF assms])
    then show ?thesis
      using True fold_merge_key_kept [of upd p _ rows, OF assms] by simp
  next
    case False
    with Cons show ?thesis by simp
  qed
qed

lemma set_pairs: "set (pairs xs ys) = node_id ` set xs \<times> node_id ` set ys"
  by (auto simp: pairs_def)

lemma at_most_one:
  assumes "distinct xs" and "\<And>a b. a \<in> set xs \<Longrightarrow> b \<in> set xs \<Longrightarrow> a = b"
  shows "length xs \<le> 1"
proof (cases xs)
  case Nil
  then show ?thesis by simp
next
  case (Cons x ys)
  have "ys = []"
  proof (cases ys)
    case Nil
    then show ?thesis .
  next
    case (Cons y zs)
    with \<open>xs = x # ys\<close> assms(2) [of x y] have "x = y" by simp
    with Cons \<open>xs = x # ys\<close> assms(1) show ?thesis by simp
  qed
  with Cons show ?thesis by simp
qed

lemma at_most_one_eq:
  assumes "length xs \<le> 1" and "a \<in> set xs" and "b \<in> set xs"
  shows "a = b"
proof -
  from assms(1) have "xs = [] \<or> (\<exists>x. xs = [x])"
    by (cases xs) simp_all
  with assms(2,3) show ?thesis by fastforce
qed

lemma set_concat_const: "xs \<noteq> [] \<Longrightarrow> set (concat (map (\<lambda>_. ys) xs)) = set ys"
  by (cases xs) auto


text \<open>The shape of \<open>query1\<close>: the rows of the second \<open>MERGE\<close> are pairs of a to account
  and a matched NFT, and there are such rows for all pairs.\<close>

lemma owned_update: "owned (g\<lparr>owned := x\<rparr>) = x"
  by simp

lemma query1_owned:
  assumes "match_account g (from_address ev) \<noteq> []"
  obtains rows2 where
    "set rows2 = node_id ` set (match_account g (to_address ev)) \<times>
                 node_id ` set (match_nft g (nft_identifier ev) (nft_collection ev))"
    "owned (query1 ev g) =
       fold (merge_owned (open_rel (event_timestamp ev))) rows2
         (fold (merge_owned (close_rel (event_timestamp ev)))
            (pairs (match_account g (from_address ev))
               (match_nft g (nft_identifier ev) (nft_collection ev))) (owned g))"
proof -
  let ?N = "match_nft g (nft_identifier ev) (nft_collection ev)"
  let ?F = "match_account g (from_address ev)"
  let ?T = "match_account g (to_address ev)"
  let ?rows1 = "pairs ?F ?N"
  let ?es1 = "fold (merge_owned (close_rel (event_timestamp ev))) ?rows1 (owned g)"
  let ?ro = "concat (map (\<lambda>p. filter (\<lambda>e. okey e = p) ?es1) ?rows1)"
  let ?rows2 = "concat (map (\<lambda>r. pairs ?T ?N) ?ro)"
  have ro: "?ro \<noteq> []" if "?N \<noteq> []"
  proof -
    from that assms have "set ?rows1 \<noteq> {}"
      by (simp add: set_pairs)
    then have "\<exists>p. p \<in> set ?rows1" by (metis ex_in_conv)
    then obtain p where p: "p \<in> set ?rows1" ..
    then have "p \<in> okey ` set ?es1"
      by (rule fold_merge_has [rotated]) simp
    then obtain e where "e \<in> set ?es1" "okey e = p" by blast
    then have "filter (\<lambda>e. okey e = p) ?es1 \<noteq> []"
      by (simp add: filter_empty_conv) blast
    with p show ?thesis
      by (simp only: concat_eq_Nil_conv set_map) blast
  qed
  have "set ?rows2 = node_id ` set ?T \<times> node_id ` set ?N"
  proof (cases "?N = []")
    case True
    then show ?thesis by (simp add: set_pairs)
  next
    case False
    from ro [OF False] have "set ?rows2 = set (pairs ?T ?N)"
      by (rule set_concat_const)
    then show ?thesis by (simp only: set_pairs)
  qed
  moreover have "owned (query1 ev g) =
      fold (merge_owned (open_rel (event_timestamp ev))) ?rows2 ?es1"
    unfolding query1_def Let_def by (rule owned_update)
  ultimately show ?thesis by (rule that)
qed

end
